theory Spec2Isabelle
  imports Main
begin

section \<open>JavaScript values\<close>

text \<open>
  The plugin is JavaScript (\<^verbatim>\<open>src/dist/index.es.js\<close>), so an option can hold any value.
  \<open>jsval\<close> has the values the options of this plugin range over: \<^verbatim>\<open>undefined\<close>,
  \<^verbatim>\<open>null\<close>, booleans, strings, arrays and \<^verbatim>\<open>Set\<close>s (elements in insertion order).
  Numbers and other objects are left out.
\<close>

datatype jsval =
    JUndefined
  | JNull
  | JBool bool
  | JStr string
  | JArray "jsval list"
  | JSet "jsval list"

text \<open>Truthiness, as \<^verbatim>\<open>if (v)\<close>, \<^verbatim>\<open>!v\<close>, \<^verbatim>\<open>v ? a : b\<close> and \<^verbatim>\<open>v || w\<close> test it.\<close>

fun truthy :: "jsval \<Rightarrow> bool" where
  "truthy JUndefined = False"
| "truthy JNull = False"
| "truthy (JBool b) = b"
| "truthy (JStr s) = (s \<noteq> [])"
| "truthy (JArray xs) = True"
| "truthy (JSet xs) = True"

fun join_comma :: "string list \<Rightarrow> string" where
  "join_comma [] = []"
| "join_comma [x] = x"
| "join_comma (x # y # ys) = x @ '','' @ join_comma (y # ys)"

text \<open>String conversion, as template literals and \<^verbatim>\<open>'..' + v\<close> perform it.\<close>

fun ToString :: "jsval \<Rightarrow> string" where
  "ToString JUndefined = ''undefined''"
| "ToString JNull = ''null''"
| "ToString (JBool b) = (if b then ''true'' else ''false'')"
| "ToString (JStr s) = s"
| "ToString (JArray xs) =
     join_comma (map (\<lambda>x. case x of JUndefined \<Rightarrow> [] | JNull \<Rightarrow> [] | _ \<Rightarrow> ToString x) xs)"
| "ToString (JSet xs) = ''[object Set]''"

text \<open>
  What can go wrong at run time: a \<^verbatim>\<open>TypeError\<close> of the engine (calling a method a value
  does not have), or the plugin context's \<^verbatim>\<open>this.error(message)\<close>, which throws and aborts
  the build.
\<close>

datatype error = TypeError | PluginError string

section \<open>Plain objects used as dictionaries\<close>

text \<open>
  \<^verbatim>\<open>entries\<close> and \<^verbatim>\<open>dynamicEntries\<close> are object literals \<^verbatim>\<open>{}\<close>: their own properties
  are a map, and they inherit the members of \<^verbatim>\<open>Object.prototype\<close>. The operator
  \<^verbatim>\<open>name in obj\<close> sees inherited members too, and assigning a string to
  \<^verbatim>\<open>obj['__proto__']\<close> leaves the object as it is (the inherited setter ignores a value that
  is not an object).
\<close>

type_synonym jsobj = "string \<rightharpoonup> string"

definition object_prototype_keys :: "string list" where
  "object_prototype_keys =
     [''constructor'', ''__defineGetter__'', ''__defineSetter__'', ''hasOwnProperty'',
      ''__lookupGetter__'', ''__lookupSetter__'', ''isPrototypeOf'', ''propertyIsEnumerable'',
      ''toString'', ''valueOf'', ''__proto__'', ''toLocaleString'']"

definition js_in :: "string \<Rightarrow> jsobj \<Rightarrow> bool" where
  "js_in k obj = (obj k \<noteq> None \<or> k \<in> set object_prototype_keys)"

definition js_set :: "jsobj \<Rightarrow> string \<Rightarrow> string \<Rightarrow> jsobj" where
  "js_set obj k v = (if k = ''__proto__'' then obj else obj(k \<mapsto> v))"

text \<open>The result of \<^verbatim>\<open>obj[name]\<close>: an own string, an inherited built-in, or \<^verbatim>\<open>undefined\<close>.\<close>

datatype property = Own string | Inherited string | Absent

definition js_get :: "jsobj \<Rightarrow> string \<Rightarrow> property" where
  "js_get obj k =
     (case obj k of
        Some v \<Rightarrow> Own v
      | None \<Rightarrow> if k \<in> set object_prototype_keys then Inherited k else Absent)"

section \<open>The path module\<close>

text \<open>
  \<^verbatim>\<open>parse\<close> and \<^verbatim>\<open>extname\<close> come from Node's \<^verbatim>\<open>path\<close> module, which is not part of the
  plugin and depends on the platform. The functions below take them as parameters:
  \<open>parse\<close> gives the pair \<^verbatim>\<open>(name, ext)\<close> of the parsed path. \<open>posix_parse\<close> and
  \<open>posix_extname\<close> are the POSIX versions, used to run the model on concrete file names:
  the base is the last component of the path, and the extension starts at the last dot of
  the base unless that dot is its first character or the base is \<^verbatim>\<open>..\<close>.
\<close>

type_synonym path_parse = "string \<Rightarrow> string \<times> string"

definition posix_base :: "string \<Rightarrow> string" where
  "posix_base p =
     rev (takeWhile (\<lambda>c. c \<noteq> CHR ''/'') (dropWhile (\<lambda>c. c = CHR ''/'') (rev p)))"

definition posix_parse :: path_parse where
  "posix_parse p =
     (let b = posix_base p;
          e = takeWhile (\<lambda>c. c \<noteq> CHR ''.'') (rev b);
          k = length b - length e - 1
      in if CHR ''.'' \<notin> set b \<or> k = 0 \<or> b = ''..'' then (b, [])
         else (take k b, drop k b))"

definition posix_extname :: "string \<Rightarrow> string" where
  "posix_extname p = snd (posix_parse p)"

section \<open>Option normalisation\<close>

text \<open>\<^verbatim>\<open>s.endsWith(t)\<close> on strings.\<close>

definition endsWith :: "string \<Rightarrow> string \<Rightarrow> bool" where
  "endsWith s t = (length t \<le> length s \<and> drop (length s - length t) s = t)"

text \<open>
  \<^verbatim>\<open>new Set(array)\<close> keeps the first occurrence of every element, in order.
\<close>

definition new_Set :: "jsval list \<Rightarrow> jsval" where
  "new_Set xs = JSet (rev (remdups (rev xs)))"

text \<open>
  \<^verbatim>\<open>normalizePreload\<close>: a falsy value becomes the empty array, an array becomes a set, any
  other value is returned as it is.
\<close>

definition normalizePreload :: "jsval \<Rightarrow> jsval" where
  "normalizePreload preload =
     (let preload1 = (if \<not> truthy preload then JArray [] else preload)
      in case preload1 of JArray xs \<Rightarrow> new_Set xs | _ \<Rightarrow> preload1)"

text \<open>
  \<^verbatim>\<open>normalizePrefix\<close>: the default \<^verbatim>\<open>''\<close> replaces \<^verbatim>\<open>undefined\<close> only. A truthy value
  that is not a string has no \<^verbatim>\<open>endsWith\<close> method, so the call throws.
\<close>

definition normalizePrefix :: "jsval \<Rightarrow> error + jsval" where
  "normalizePrefix prefix0 =
     (let prefix = (if prefix0 = JUndefined then JStr [] else prefix0)
      in if truthy prefix then
           (case prefix of
              JStr s \<Rightarrow> if \<not> endsWith s ''/'' then Inr (JStr (s @ ''/'')) else Inr prefix
            | _ \<Rightarrow> Inl TypeError)
         else Inr prefix)"

text \<open>\<^verbatim>\<open>extensionToType\<close>; \<^verbatim>\<open>null\<close> is \<open>None\<close>.\<close>

definition extensionToType :: "string \<Rightarrow> string option" where
  "extensionToType ext =
     (if ext = ''css'' then Some ''style''
      else if ext = ''js'' then Some ''script''
      else None)"

section \<open>Validation of the externals\<close>

text \<open>
  An external is the object the loops destructure as
  \<^verbatim>\<open>{ pos, file, type, crossorigin }\<close>. Whatever else the object carries is the
  extension part of the record, which no function below reads.
\<close>

record external =
  pos :: jsval
  file' :: string
  type :: jsval
  crossorigin :: jsval

definition ExternalPosition :: "jsval list" where
  "ExternalPosition = [JStr ''before'', JStr ''after'']"

definition Crossorigin :: "jsval list" where
  "Crossorigin = [JStr ''anonymous'', JStr ''use-credentials'']"

text \<open>\<^verbatim>\<open>checkEnum(enumobj, val)\<close>, with \<open>enumobj\<close> given by its \<^verbatim>\<open>Object.values\<close>.\<close>

definition checkEnum :: "jsval list \<Rightarrow> jsval \<Rightarrow> bool" where
  "checkEnum enumobj val = (\<not> truthy val \<or> val \<in> set enumobj)"

text \<open>
  The loop of \<^verbatim>\<open>buildStart\<close> over the externals. \<^verbatim>\<open>this.error\<close> throws, so the
  first offending entry ends the loop; within an entry the position is checked first.
\<close>

fun checkExternals :: "'a external_scheme list \<Rightarrow> error + unit" where
  "checkExternals [] = Inr ()"
| "checkExternals (e # es) =
     (if \<not> checkEnum ExternalPosition (pos e) then
        Inl (PluginError (''Invalid position for the extrenal: '' @ ToString (pos e)))
      else if \<not> checkEnum Crossorigin (crossorigin e) then
        Inl (PluginError
          (''Invalid crossorigin argument for the extrenal: '' @ ToString (crossorigin e)))
      else checkExternals es)"

text \<open>\<^verbatim>\<open>if (externals) { ... }\<close>: \<open>None\<close> is an option that is not set.\<close>

definition buildStart_externals :: "'a external_scheme list option \<Rightarrow> error + unit" where
  "buildStart_externals externals =
     (case externals of None \<Rightarrow> Inr () | Some es \<Rightarrow> checkExternals es)"

text \<open>
  The check of \<^verbatim>\<open>outputOptions\<close> that refuses \<^verbatim>\<open>modules\<close> together with \<^verbatim>\<open>nomodule\<close>.
\<close>

definition outputOptions_modules :: "jsval \<Rightarrow> jsval \<Rightarrow> error + unit" where
  "outputOptions_modules modules nomodule =
     (if truthy modules \<and> truthy nomodule then
        Inl (PluginError ''Options `modules` and `nomodule` cannot be set at the same time'')
      else Inr ())"

section \<open>The document\<close>

text \<open>
  Nodes of the HTML tree: \<^verbatim>\<open>new HTMLElement(tag, {}, rawAttrs)\<close> with its child nodes, and
  \<^verbatim>\<open>new TextNode(text)\<close>. The HTML library is not part of the plugin; its methods are
  modelled by their DOM meaning.
\<close>

datatype node = HTMLElement string string "node list" | TextNode string

text \<open>
  While tags are injected, the closure holds the two elements \<^verbatim>\<open>head\<close> and \<^verbatim>\<open>body\<close> and
  only ever appends to their \<^verbatim>\<open>childNodes\<close> arrays: the state is these two arrays.
\<close>

record document =
  head :: "node list"
  body :: "node list"

definition appendChild :: "node list \<Rightarrow> node \<Rightarrow> node list" where
  "appendChild childNodes n = childNodes @ [n]"

definition addNewLine :: "node list \<Rightarrow> node list" where
  "addNewLine childNodes = appendChild childNodes (TextNode ''\<newline>  '')"

section \<open>Tag injection\<close>

type_synonym injector = "string \<Rightarrow> jsval \<Rightarrow> jsval \<Rightarrow> jsval \<Rightarrow> document \<Rightarrow> document"

text \<open>
  \<^verbatim>\<open>injectCSSandJSFactory\<close>, with its constants \<^verbatim>\<open>moduleattr\<close> and \<^verbatim>\<open>cors\<close>; the
  returned closure takes \<^verbatim>\<open>(fileName, type, pos, crossorigin)\<close> and, here, the state it
  mutates.
\<close>

definition moduleattr :: "jsval \<Rightarrow> jsval \<Rightarrow> string" where
  \<open>moduleattr modules nomodule =
     (if truthy modules then ''type="module" ''
      else if truthy nomodule then ''nomodule ''
      else [])\<close>

definition cors :: "jsval \<Rightarrow> string" where
  \<open>cors co = (if truthy co then ''crossorigin="'' @ ToString co @ ''" '' else [])\<close>

definition injectCSSandJSFactory :: "jsval \<Rightarrow> jsval \<Rightarrow> injector" where
  \<open>injectCSSandJSFactory modules nomodule =
     (\<lambda>fileName type pos crossorigin d.
        if type = JStr ''css'' then
          (if pos = JStr ''body''
           then d\<lparr>body := appendChild (addNewLine (body d))
                  (HTMLElement ''link''
                     (''rel="stylesheet" '' @ cors crossorigin @ ''href="'' @ fileName @ ''"'') [])\<rparr>
           else d\<lparr>head := appendChild (addNewLine (head d))
                  (HTMLElement ''link''
                     (''rel="stylesheet" '' @ cors crossorigin @ ''href="'' @ fileName @ ''"'') [])\<rparr>)
        else
          (if pos = JStr ''head''
           then d\<lparr>head := appendChild (addNewLine (head d))
                  (HTMLElement ''script''
                     (moduleattr modules nomodule @ cors crossorigin @ ''src="'' @ fileName @ ''"'') [])\<rparr>
           else d\<lparr>body := appendChild (addNewLine (body d))
                  (HTMLElement ''script''
                     (moduleattr modules nomodule @ cors crossorigin @ ''src="'' @ fileName @ ''"'') [])\<rparr>))\<close>

text \<open>
  \<^verbatim>\<open>extrenalsProcessorFactory\<close>. The call passes \<^verbatim>\<open>undefined\<close> as the position argument
  of the injector for every external.
\<close>

definition extrenalsProcessorFactory ::
  "(string \<Rightarrow> string) \<Rightarrow> injector \<Rightarrow> 'a external_scheme list option
     \<Rightarrow> jsval \<Rightarrow> document \<Rightarrow> document" where
  "extrenalsProcessorFactory extname injectCSSandJS externals =
     (case externals of
        None \<Rightarrow> (\<lambda>processPos d. d)
      | Some es \<Rightarrow>
          (\<lambda>processPos d.
             foldl (\<lambda>d e.
                 if pos e = processPos
                 then injectCSSandJS (file' e)
                        (if truthy (type e) then type e else JStr (drop 1 (extname (file' e))))
                        JUndefined (crossorigin e) d
                 else d)
               d es))"

text \<open>An output file of the bundle, and the two indexes \<^verbatim>\<open>bundleReducer\<close> builds.\<close>

record output_file =
  file_type :: string
  fileName :: string
  isEntry :: bool
  isDynamicEntry :: bool
  name :: string

record name_index =
  dynamicEntries :: jsobj
  entries :: jsobj

definition isChunk :: "output_file \<Rightarrow> bool" where
  "isChunk item = (file_type item = ''chunk'')"

definition bundleReducer :: "path_parse \<Rightarrow> name_index \<Rightarrow> output_file \<Rightarrow> name_index" where
  "bundleReducer parse prev cur =
     (if isChunk cur then
        (let stem = fst (parse (fileName cur))
         in if isEntry cur then prev\<lparr>entries := js_set (entries prev) stem (name cur)\<rparr>
            else if isDynamicEntry cur
              then prev\<lparr>dynamicEntries := js_set (dynamicEntries prev) stem (name cur)\<rparr>
            else prev)
      else prev)"

text \<open>
  \<^verbatim>\<open>preload.has(dynamicEntries[name])\<close>: only a \<^verbatim>\<open>Set\<close> has the method. An inherited
  built-in is no element of a set of \<open>jsval\<close>s.
\<close>

definition preload_has :: "jsval \<Rightarrow> property \<Rightarrow> error + bool" where
  "preload_has preload v =
     (case preload of
        JSet xs \<Rightarrow>
          Inr (case v of
                 Own s \<Rightarrow> JStr s \<in> set xs
               | Inherited k \<Rightarrow> False
               | Absent \<Rightarrow> JUndefined \<in> set xs)
      | _ \<Rightarrow> Inl TypeError)"

text \<open>The callback of \<^verbatim>\<open>files.forEach\<close> in \<^verbatim>\<open>generateBundle\<close>.\<close>

definition inject_file ::
  "path_parse \<Rightarrow> injector \<Rightarrow> jsobj \<Rightarrow> jsobj \<Rightarrow> jsval \<Rightarrow> jsval \<Rightarrow> jsval
     \<Rightarrow> output_file \<Rightarrow> document \<Rightarrow> error + document" where
  \<open>inject_file parse injectCSSandJS ents dyns preload prefix inject f d =
     (let stem = fst (parse (fileName f));
          ext = snd (parse (fileName f));
          injectType = drop 1 ext;
          filePath = ToString prefix @ fileName f
      in if js_in stem ents then
           Inr (injectCSSandJS filePath (JStr injectType) inject JUndefined d)
         else if js_in stem dyns then
           (case preload_has preload (js_get dyns stem) of
              Inl e \<Rightarrow> Inl e
            | Inr b \<Rightarrow>
                if b then
                  (case extensionToType injectType of
                     Some linkType \<Rightarrow>
                       Inr (d\<lparr>head := appendChild (addNewLine (head d))
                         (HTMLElement ''link''
                            (''rel="preload" href="'' @ filePath @ ''" as="'' @ linkType @ ''"'') [])\<rparr>)
                   | None \<Rightarrow> Inr d)
                else Inr d)
         else Inr d)\<close>

fun forEach :: "('a \<Rightarrow> 's \<Rightarrow> error + 's) \<Rightarrow> 'a list \<Rightarrow> 's \<Rightarrow> error + 's" where
  "forEach f [] s = Inr s"
| "forEach f (x # xs) s = (case f x s of Inl e \<Rightarrow> Inl e | Inr s' \<Rightarrow> forEach f xs s')"

text \<open>The block \<^verbatim>\<open>if (inject !== false) { ... }\<close> of \<^verbatim>\<open>generateBundle\<close>.\<close>

definition inject_generated ::
  "path_parse \<Rightarrow> injector \<Rightarrow> jsval \<Rightarrow> jsval \<Rightarrow> jsval \<Rightarrow> output_file list
     \<Rightarrow> document \<Rightarrow> error + document" where
  "inject_generated parse injectCSSandJS inject preload onlinePath files d =
     (if inject \<noteq> JBool False then
        (let idx = foldl (bundleReducer parse)
                     \<lparr>dynamicEntries = Map.empty, entries = Map.empty\<rparr> files;
             preload' = normalizePreload preload
         in case normalizePrefix onlinePath of
              Inl e \<Rightarrow> Inl e
            | Inr prefix \<Rightarrow>
                forEach (inject_file parse injectCSSandJS (entries idx) (dynamicEntries idx)
                           preload' prefix inject) files d)
      else Inr d)"

text \<open>
  The tag part of \<^verbatim>\<open>generateBundle\<close>: externals before, generated files, externals after.
\<close>

definition generateBundle_tags ::
  "path_parse \<Rightarrow> (string \<Rightarrow> string) \<Rightarrow> jsval \<Rightarrow> jsval \<Rightarrow> 'a external_scheme list option
     \<Rightarrow> jsval \<Rightarrow> jsval \<Rightarrow> jsval \<Rightarrow> output_file list \<Rightarrow> document \<Rightarrow> error + document" where
  "generateBundle_tags parse extname modules nomodule externals inject preload onlinePath files d =
     (let injectCSSandJS = injectCSSandJSFactory modules nomodule;
          processExternals = extrenalsProcessorFactory extname injectCSSandJS externals;
          d1 = processExternals (JStr ''before'') d
      in case inject_generated parse injectCSSandJS inject preload onlinePath files d1 of
           Inl e \<Rightarrow> Inl e
         | Inr d2 \<Rightarrow> Inr (processExternals (JStr ''after'') d2))"

section \<open>The head and body elements\<close>

text \<open>
  \<^verbatim>\<open>querySelector(tag)\<close> and \<^verbatim>\<open>querySelectorAll(tag)\<close> with a tag name as selector: the
  elements with that tag below a node, in document order (an element before its
  descendants, siblings from first to last). A node that is found is the JavaScript
  reference to it; here it is the path to the node, the list of child indexes from the
  searched node down.
\<close>

fun find_first :: "string \<Rightarrow> nat \<Rightarrow> node list \<Rightarrow> nat list option" where
  "find_first t i [] = None"
| "find_first t i (TextNode s # ns) = find_first t (Suc i) ns"
| "find_first t i (HTMLElement g a cs # ns) =
     (if g = t then Some [i]
      else case find_first t 0 cs of
             Some p \<Rightarrow> Some (i # p)
           | None \<Rightarrow> find_first t (Suc i) ns)"

fun find_all :: "string \<Rightarrow> nat \<Rightarrow> node list \<Rightarrow> (nat list \<times> node) list" where
  "find_all t i [] = []"
| "find_all t i (TextNode s # ns) = find_all t (Suc i) ns"
| "find_all t i (HTMLElement g a cs # ns) =
     (if g = t then [([i], HTMLElement g a cs)] else [])
     @ map (\<lambda>(p, n). (i # p, n)) (find_all t 0 cs)
     @ find_all t (Suc i) ns"

definition childNodes :: "node \<Rightarrow> node list" where
  "childNodes n = (case n of HTMLElement g a cs \<Rightarrow> cs | TextNode s \<Rightarrow> [])"

definition querySelector :: "node \<Rightarrow> string \<Rightarrow> nat list option" where
  "querySelector n tag = find_first tag 0 (childNodes n)"

definition querySelectorAll :: "node \<Rightarrow> string \<Rightarrow> (nat list \<times> node) list" where
  "querySelectorAll n tag = find_all tag 0 (childNodes n)"

text \<open>
  \<^verbatim>\<open>getChildElement(node, tag, append)\<close> returns the element; here it returns the node as
  it is afterwards and the path of the element in it. \<^verbatim>\<open>node\<close> is an element (the caller
  has checked that \<^verbatim>\<open>html\<close> was found).
\<close>

definition getChildElement :: "node \<Rightarrow> string \<Rightarrow> bool \<Rightarrow> node \<times> nat list" where
  "getChildElement n tag append' =
     (case querySelector n tag of
        Some p \<Rightarrow> (n, p)
      | None \<Rightarrow>
          (case n of
             HTMLElement g a cs \<Rightarrow>
               if append' then (HTMLElement g a (appendChild cs (HTMLElement tag [] [])), [length cs])
               else (HTMLElement g a (HTMLElement tag [] [] # cs), [0])
           | TextNode s \<Rightarrow> (n, [])))"

text \<open>
  The two calls of \<^verbatim>\<open>generateBundle\<close>:
  \<^verbatim>\<open>head = getChildElement(html, 'head', false); body = getChildElement(html, 'body')\<close>.
\<close>

definition generateBundle_head_body :: "node \<Rightarrow> node \<times> nat list \<times> nat list" where
  "generateBundle_head_body html =
     (let (html1, head_path) = getChildElement html ''head'' False;
          (html2, body_path) = getChildElement html1 ''body'' True
      in (html2, head_path, body_path))"

section \<open>The decorators of the head element\<close>






text \<open>The markers of \<^verbatim>\<open>__favicons_output\<close>, each followed by a newline.\<close>

definition decorate_markers :: "string list \<Rightarrow> node list \<Rightarrow> node list" where
  "decorate_markers favicons cs =
     foldl (\<lambda>cs f. addNewLine (appendChild cs (TextNode f))) cs favicons"

text \<open>
  \<^verbatim>\<open>node.set_content(title)\<close> on the node with path \<open>p\<close>: its children become what the
  library makes of the string, the parameter \<open>content\<close> below.
\<close>

fun set_content_at :: "nat list \<Rightarrow> node list \<Rightarrow> node list \<Rightarrow> node list" where
  "set_content_at [] new cs = cs"
| "set_content_at (i # p) new cs =
     (if i < length cs then
        (case cs ! i of
           HTMLElement g a ks \<Rightarrow>
             cs[i := HTMLElement g a (if p = [] then new else set_content_at p new ks)]
         | TextNode s \<Rightarrow> cs)
      else cs)"



text \<open>
  A reader of raw attribute strings written as \<^verbatim>\<open>key="value"\<close> items separated by
  spaces, the form the decorators write: a value ends at the next double quote, and of two
  attributes with the same name the later one counts. It stands for the library's reader
  where the model is run on concrete documents.
\<close>

fun scan_key :: "string \<Rightarrow> string \<Rightarrow> (string \<times> string) list"
  and scan_value :: "string \<Rightarrow> string \<Rightarrow> string \<Rightarrow> (string \<times> string) list" where
  "scan_key k [] = (if k = [] then [] else [(k, [])])"
| "scan_key k (c # cs) =
     (if c = CHR ''='' then
        (case cs of
           [] \<Rightarrow> [(k, [])]
         | c' # cs' \<Rightarrow> if c' = CHR 0x22 then scan_value k [] cs' else scan_key (k @ [c]) cs)
      else if c = CHR '' '' then (if k = [] then scan_key [] cs else (k, []) # scan_key [] cs)
      else scan_key (k @ [c]) cs)"
| "scan_value k v [] = [(k, v)]"
| "scan_value k v (c # cs) =
     (if c = CHR 0x22 then (k, v) # scan_key [] cs else scan_value k (v @ [c]) cs)"






text \<open>The nodes the injector creates, named for the statements below.\<close>

abbreviation newline_text :: node where
  "newline_text \<equiv> TextNode ''\<newline>  ''"

abbreviation stylesheet_tag :: "jsval \<Rightarrow> string \<Rightarrow> node" where
  \<open>stylesheet_tag co url \<equiv>
     HTMLElement ''link'' (''rel="stylesheet" '' @ cors co @ ''href="'' @ url @ ''"'') []\<close>

abbreviation script_tag :: "jsval \<Rightarrow> jsval \<Rightarrow> jsval \<Rightarrow> string \<Rightarrow> node" where
  \<open>script_tag modules nomodule co url \<equiv>
     HTMLElement ''script'' (moduleattr modules nomodule @ cors co @ ''src="'' @ url @ ''"'') []\<close>

abbreviation preload_tag :: "string \<Rightarrow> string \<Rightarrow> node" where
  \<open>preload_tag url linkType \<equiv>
     HTMLElement ''link'' (''rel="preload" href="'' @ url @ ''" as="'' @ linkType @ ''"'') []\<close>

text \<open>The type an external is injected with: \<^verbatim>\<open>type || extname(file).slice(1)\<close>.\<close>

abbreviation external_type :: "(string \<Rightarrow> string) \<Rightarrow> 'a external_scheme \<Rightarrow> jsval" where
  "external_type extname e \<equiv>
     (if truthy (type e) then type e else JStr (drop 1 (extname (file' e))))"

text \<open>The tags a generated file can be injected with, at the address \<open>url\<close>.\<close>

abbreviation generated_node :: "jsval \<Rightarrow> jsval \<Rightarrow> string \<Rightarrow> node \<Rightarrow> bool" where
  "generated_node modules nomodule url x \<equiv>
     (x = stylesheet_tag JUndefined url \<or> x = script_tag modules nomodule JUndefined url
      \<or> x = preload_tag url ''style'' \<or> x = preload_tag url ''script'')"

text \<open>
  What the reduce over the bundle leaves in the index, read off the list of files.
  \<^verbatim>\<open>name in entries\<close> holds for a name that a plain object inherits and for the stem of an
  entry chunk of the bundle.
\<close>

abbreviation entry_stem :: "path_parse \<Rightarrow> output_file list \<Rightarrow> string \<Rightarrow> bool" where
  "entry_stem parse files s \<equiv>
     (s \<in> set object_prototype_keys
      \<or> (\<exists>g\<in>set files. isChunk g \<and> isEntry g \<and> fst (parse (fileName g)) = s))"

text \<open>
  \<^verbatim>\<open>dynamicEntries[name]\<close>, as far as it is an own property: the logical name of the last
  chunk of the bundle with this stem that is a dynamic entry and not an entry (a later
  chunk overwrites what an earlier one recorded under the same stem).
\<close>

abbreviation recorded_name :: "path_parse \<Rightarrow> output_file list \<Rightarrow> string \<Rightarrow> string option" where
  "recorded_name parse files s \<equiv>
     (if s = ''__proto__'' then None
      else map_option name
             (find (\<lambda>g. isChunk g \<and> \<not> isEntry g \<and> isDynamicEntry g \<and> fst (parse (fileName g)) = s)
                (rev files)))"

text \<open>
  The nodes the pass over the generated files appends to \<^verbatim>\<open>head\<close> and to \<^verbatim>\<open>body\<close> for one
  file with address \<open>url\<close> and extension \<open>ext\<close>, given whether its stem is \<^verbatim>\<open>in\<close> the
  entries and whether the logical name recorded under its stem is in the preload set.
\<close>

abbreviation generated_head_nodes ::
  "jsval \<Rightarrow> jsval \<Rightarrow> jsval \<Rightarrow> string \<Rightarrow> string \<Rightarrow> bool \<Rightarrow> bool \<Rightarrow> node list" where
  "generated_head_nodes modules nomodule inject url ext in_entries preloaded \<equiv>
     (if in_entries then
        (if ext = ''css''
         then (if inject = JStr ''body'' then [] else [newline_text, stylesheet_tag JUndefined url])
         else (if inject = JStr ''head''
               then [newline_text, script_tag modules nomodule JUndefined url] else []))
      else if preloaded then
        (if ext = ''css'' then [newline_text, preload_tag url ''style'']
         else if ext = ''js'' then [newline_text, preload_tag url ''script'']
         else [])
      else [])"

abbreviation generated_body_nodes ::
  "jsval \<Rightarrow> jsval \<Rightarrow> jsval \<Rightarrow> string \<Rightarrow> string \<Rightarrow> bool \<Rightarrow> node list" where
  "generated_body_nodes modules nomodule inject url ext in_entries \<equiv>
     (if in_entries then
        (if ext = ''css''
         then (if inject = JStr ''body'' then [newline_text, stylesheet_tag JUndefined url] else [])
         else (if inject = JStr ''head''
               then [] else [newline_text, script_tag modules nomodule JUndefined url]))
      else [])"

text \<open>
  The tags of an external, with the cross-origin attribute written out: the attribute is
  there when the configured value is truthy, and it is followed by a space.
\<close>

abbreviation external_stylesheet :: "'a external_scheme \<Rightarrow> node" where
  \<open>external_stylesheet e \<equiv>
     HTMLElement ''link''
       (''rel="stylesheet" ''
        @ (if truthy (crossorigin e) then ''crossorigin="'' @ ToString (crossorigin e) @ ''" '' else [])
        @ ''href="'' @ file' e @ ''"'') []\<close>

abbreviation external_script :: "jsval \<Rightarrow> jsval \<Rightarrow> 'a external_scheme \<Rightarrow> node" where
  \<open>external_script modules nomodule e \<equiv>
     HTMLElement ''script''
       (moduleattr modules nomodule
        @ (if truthy (crossorigin e) then ''crossorigin="'' @ ToString (crossorigin e) @ ''" '' else [])
        @ ''src="'' @ file' e @ ''"'') []\<close>

section \<open>The path prefix\<close>

text \<open>
  C5, as stated, fails: a prefix that already ends with two separators is returned as it
  is, so the result does not end with exactly one separator.
\<close>

theorem normalizePrefix_two_separators:
  "normalizePrefix (JStr ''cdn//'') = Inr (JStr (''cdn/'' @ ''/'')) \<and> endsWith ''cdn/'' ''/''"
  by (simp add: normalizePrefix_def endsWith_def)

text \<open>
  C5, amended: an unset or empty \<^verbatim>\<open>onlinePath\<close> normalises to the empty string; any other
  string normalises to a string that ends with a separator, which is the input itself when
  it already ends with one and the input followed by one separator otherwise.
\<close>

theorem normalizePrefix_ends_with_separator:
  "normalizePrefix JUndefined = Inr (JStr [])
   \<and> normalizePrefix (JStr []) = Inr (JStr [])
   \<and> (s \<noteq> [] \<longrightarrow>
        (\<exists>s'. normalizePrefix (JStr s) = Inr (JStr s') \<and> endsWith s' ''/''
           \<and> (if endsWith s ''/'' then s' = s else s' = s @ ''/'')))"
  by (auto simp: normalizePrefix_def endsWith_def)

theorem normalizePrefix_ends_with_separator_witness:
  "''assets'' \<noteq> [] \<and> normalizePrefix (JStr ''assets'') = Inr (JStr ''assets/'')
   \<and> ''cdn/'' \<noteq> [] \<and> normalizePrefix (JStr ''cdn/'') = Inr (JStr ''cdn/'')"
  using normalizePrefix_ends_with_separator [of "''assets''"]
        normalizePrefix_ends_with_separator [of "''cdn/''"]
  by (auto simp: endsWith_def)

section \<open>Validation of the externals: what is refused\<close>

lemma checkExternals_ok:
  "checkExternals es = Inr () \<longleftrightarrow>
     (\<forall>e\<in>set es. (truthy (pos e) \<longrightarrow> pos e \<in> set ExternalPosition)
                \<and> (truthy (crossorigin e) \<longrightarrow> crossorigin e \<in> set Crossorigin))"
  by (induction es) (auto simp: checkEnum_def)

lemma checkExternals_error:
  "checkExternals es \<noteq> Inr () \<Longrightarrow> \<exists>msg. checkExternals es = Inl (PluginError msg)"
  by (induction es) (auto simp: checkEnum_def)

text \<open>
  C6, as stated, fails: an external without a position has a position that is neither
  \<^verbatim>\<open>before\<close> nor \<^verbatim>\<open>after\<close>, and validation passes it, because \<^verbatim>\<open>checkEnum\<close> accepts
  every falsy value.
\<close>

theorem buildStart_externals_missing_position:
  "JUndefined \<notin> set ExternalPosition
   \<and> buildStart_externals
        (Some [\<lparr>pos = JUndefined, file' = ''lib.js'', type = JUndefined, crossorigin = JUndefined\<rparr>])
      = Inr ()"
  by (simp add: buildStart_externals_def checkEnum_def ExternalPosition_def)

text \<open>
  C6, amended: validation passes exactly when every entry's position, if it is set to a
  truthy value, is one of \<^verbatim>\<open>before\<close>, \<^verbatim>\<open>after\<close>, and every entry's cross-origin policy, if
  it is set to a truthy value, is one of \<^verbatim>\<open>anonymous\<close>, \<^verbatim>\<open>use-credentials\<close>; in every other
  case it raises the fatal error of the plugin context. Validation only reads the list.
\<close>

theorem buildStart_externals_iff:
  "buildStart_externals None = Inr ()
   \<and> (buildStart_externals (Some es) = Inr () \<longleftrightarrow>
        (\<forall>e\<in>set es. (truthy (pos e) \<longrightarrow> pos e \<in> set ExternalPosition)
                   \<and> (truthy (crossorigin e) \<longrightarrow> crossorigin e \<in> set Crossorigin)))
   \<and> (buildStart_externals (Some es) \<noteq> Inr () \<longrightarrow>
        (\<exists>msg. buildStart_externals (Some es) = Inl (PluginError msg)))"
  using checkExternals_ok [of es] checkExternals_error [of es]
  by (simp add: buildStart_externals_def)

theorem buildStart_externals_iff_witness:
  "buildStart_externals
     (Some [\<lparr>pos = JStr ''before'', file' = ''a.css'', type = JUndefined, crossorigin = JStr ''anonymous''\<rparr>,
            \<lparr>pos = JStr ''after'', file' = ''b.js'', type = JUndefined, crossorigin = JUndefined\<rparr>])
     = Inr ()
   \<and> (\<exists>msg. buildStart_externals
         (Some [\<lparr>pos = JStr ''middle'', file' = ''a.css'', type = JUndefined, crossorigin = JUndefined\<rparr>])
       = Inl (PluginError msg))
   \<and> (\<exists>msg. buildStart_externals
         (Some [\<lparr>pos = JStr ''before'', file' = ''a.css'', type = JUndefined, crossorigin = JStr ''yes''\<rparr>])
       = Inl (PluginError msg))"
  using buildStart_externals_iff
    [of "[\<lparr>pos = JStr ''before'', file' = ''a.css'', type = JUndefined, crossorigin = JStr ''anonymous''\<rparr>,
          \<lparr>pos = JStr ''after'', file' = ''b.js'', type = JUndefined, crossorigin = JUndefined\<rparr>]"]
    buildStart_externals_iff
    [of "[\<lparr>pos = JStr ''middle'', file' = ''a.css'', type = JUndefined, crossorigin = JUndefined\<rparr>]"]
    buildStart_externals_iff
    [of "[\<lparr>pos = JStr ''before'', file' = ''a.css'', type = JUndefined, crossorigin = JStr ''yes''\<rparr>]"]
  by (auto simp: ExternalPosition_def Crossorigin_def)

section \<open>What the injector appends\<close>

lemma injector_head:
  "head (injectCSSandJSFactory m n url t p co d) =
     head d @ (if t = JStr ''css''
               then (if p = JStr ''body'' then [] else [newline_text, stylesheet_tag co url])
               else (if p = JStr ''head'' then [newline_text, script_tag m n co url] else []))"
  by (simp add: injectCSSandJSFactory_def appendChild_def addNewLine_def)

lemma injector_body:
  "body (injectCSSandJSFactory m n url t p co d) =
     body d @ (if t = JStr ''css''
               then (if p = JStr ''body'' then [newline_text, stylesheet_tag co url] else [])
               else (if p = JStr ''head'' then [] else [newline_text, script_tag m n co url]))"
  by (simp add: injectCSSandJSFactory_def appendChild_def addNewLine_def)

lemma processExternals_head:
  "head (extrenalsProcessorFactory extname (injectCSSandJSFactory m n) (Some es) p d) =
     head d @ concat (map (\<lambda>e. [newline_text, stylesheet_tag (crossorigin e) (file' e)])
                      (filter (\<lambda>e. pos e = p \<and> external_type extname e = JStr ''css'') es))"
proof (induction es arbitrary: d)
  case Nil
  then show ?case by (simp add: extrenalsProcessorFactory_def)
next
  case (Cons e es)
  show ?case
    using Cons.IH [of "if pos e = p
        then injectCSSandJSFactory m n (file' e) (external_type extname e) JUndefined (crossorigin e) d
        else d"]
    by (simp add: extrenalsProcessorFactory_def injector_head)
qed

lemma processExternals_body:
  "body (extrenalsProcessorFactory extname (injectCSSandJSFactory m n) (Some es) p d) =
     body d @ concat (map (\<lambda>e. [newline_text, script_tag m n (crossorigin e) (file' e)])
                      (filter (\<lambda>e. pos e = p \<and> external_type extname e \<noteq> JStr ''css'') es))"
proof (induction es arbitrary: d)
  case Nil
  then show ?case by (simp add: extrenalsProcessorFactory_def)
next
  case (Cons e es)
  show ?case
    using Cons.IH [of "if pos e = p
        then injectCSSandJSFactory m n (file' e) (external_type extname e) JUndefined (crossorigin e) d
        else d"]
    by (simp add: extrenalsProcessorFactory_def injector_body)
qed

lemma posix_parse_app_css:
  "fst (posix_parse ''app.css'') = ''app''" "snd (posix_parse ''app.css'') = ''.css''"
  by (simp_all add: posix_parse_def posix_base_def Let_def)

lemma posix_parse_app_js:
  "fst (posix_parse ''app.js'') = ''app''" "snd (posix_parse ''app.js'') = ''.js''"
  by (simp_all add: posix_parse_def posix_base_def Let_def)

section \<open>Placement of the tags of generated files\<close>

text \<open>
  C1: a generated file whose stem is \<^verbatim>\<open>in\<close> the entries is injected as follows. With
  the extension \<^verbatim>\<open>css\<close> its stylesheet link is appended to \<^verbatim>\<open>body\<close> if \<^verbatim>\<open>inject\<close> is the
  string \<^verbatim>\<open>body\<close> and to \<^verbatim>\<open>head\<close> in every other case; with any other extension its
  script is appended to \<^verbatim>\<open>head\<close> if \<^verbatim>\<open>inject\<close> is the string \<^verbatim>\<open>head\<close> and to \<^verbatim>\<open>body\<close> in
  every other case. The other element is left as it is.
\<close>

theorem generated_file_placement:
  assumes "js_in (fst (parse (fileName f))) ents"
  shows "inject_file parse (injectCSSandJSFactory modules nomodule) ents dyns preload prefix inject f d =
     Inr (if drop 1 (snd (parse (fileName f))) = ''css''
          then (if inject = JStr ''body''
                then d\<lparr>body := body d @
                       [newline_text, stylesheet_tag JUndefined (ToString prefix @ fileName f)]\<rparr>
                else d\<lparr>head := head d @
                       [newline_text, stylesheet_tag JUndefined (ToString prefix @ fileName f)]\<rparr>)
          else (if inject = JStr ''head''
                then d\<lparr>head := head d @
                       [newline_text, script_tag modules nomodule JUndefined (ToString prefix @ fileName f)]\<rparr>
                else d\<lparr>body := body d @
                       [newline_text, script_tag modules nomodule JUndefined (ToString prefix @ fileName f)]\<rparr>))"
  using assms
  by (simp add: inject_file_def injectCSSandJSFactory_def appendChild_def addNewLine_def)

theorem generated_file_placement_witness:
  "js_in (fst (posix_parse (fileName
      \<lparr>file_type = ''asset'', fileName = ''app.css'', isEntry = False, isDynamicEntry = False, name = ''app''\<rparr>)))
      [''app'' \<mapsto> ''main'']
   \<and> inject_file posix_parse (injectCSSandJSFactory JUndefined JUndefined) [''app'' \<mapsto> ''main'']
        Map.empty (JSet []) (JStr ''cdn/'') JUndefined
        \<lparr>file_type = ''asset'', fileName = ''app.css'', isEntry = False, isDynamicEntry = False, name = ''app''\<rparr>
        \<lparr>head = [], body = []\<rparr>
      = Inr \<lparr>head = [newline_text, stylesheet_tag JUndefined ''cdn/app.css''], body = []\<rparr>
   \<and> inject_file posix_parse (injectCSSandJSFactory JUndefined JUndefined) [''app'' \<mapsto> ''main'']
        Map.empty (JSet []) (JStr ''cdn/'') (JStr ''body'')
        \<lparr>file_type = ''asset'', fileName = ''app.css'', isEntry = False, isDynamicEntry = False, name = ''app''\<rparr>
        \<lparr>head = [], body = []\<rparr>
      = Inr \<lparr>head = [], body = [newline_text, stylesheet_tag JUndefined ''cdn/app.css'']\<rparr>
   \<and> inject_file posix_parse (injectCSSandJSFactory JUndefined JUndefined) [''app'' \<mapsto> ''main'']
        Map.empty (JSet []) (JStr ''cdn/'') (JStr ''head'')
        \<lparr>file_type = ''chunk'', fileName = ''app.js'', isEntry = True, isDynamicEntry = False, name = ''main''\<rparr>
        \<lparr>head = [], body = []\<rparr>
      = Inr \<lparr>head = [newline_text, script_tag JUndefined JUndefined JUndefined ''cdn/app.js''], body = []\<rparr>
   \<and> inject_file posix_parse (injectCSSandJSFactory JUndefined JUndefined) [''app'' \<mapsto> ''main'']
        Map.empty (JSet []) (JStr ''cdn/'') JUndefined
        \<lparr>file_type = ''chunk'', fileName = ''app.js'', isEntry = True, isDynamicEntry = False, name = ''main''\<rparr>
        \<lparr>head = [], body = []\<rparr>
      = Inr \<lparr>head = [], body = [newline_text, script_tag JUndefined JUndefined JUndefined ''cdn/app.js'']\<rparr>"
proof -
  have in1: "js_in ''app'' [''app'' \<mapsto> ''main'']"
    by (simp add: js_in_def)
  show ?thesis
    using generated_file_placement [of posix_parse
        "\<lparr>file_type = ''asset'', fileName = ''app.css'', isEntry = False, isDynamicEntry = False, name = ''app''\<rparr>"
        "[''app'' \<mapsto> ''main'']" JUndefined JUndefined Map.empty "JSet []" "JStr ''cdn/''" JUndefined
        "\<lparr>head = [], body = []\<rparr>"]
      generated_file_placement [of posix_parse
        "\<lparr>file_type = ''asset'', fileName = ''app.css'', isEntry = False, isDynamicEntry = False, name = ''app''\<rparr>"
        "[''app'' \<mapsto> ''main'']" JUndefined JUndefined Map.empty "JSet []" "JStr ''cdn/''" "JStr ''body''"
        "\<lparr>head = [], body = []\<rparr>"]
      generated_file_placement [of posix_parse
        "\<lparr>file_type = ''chunk'', fileName = ''app.js'', isEntry = True, isDynamicEntry = False, name = ''main''\<rparr>"
        "[''app'' \<mapsto> ''main'']" JUndefined JUndefined Map.empty "JSet []" "JStr ''cdn/''" "JStr ''head''"
        "\<lparr>head = [], body = []\<rparr>"]
      generated_file_placement [of posix_parse
        "\<lparr>file_type = ''chunk'', fileName = ''app.js'', isEntry = True, isDynamicEntry = False, name = ''main''\<rparr>"
        "[''app'' \<mapsto> ''main'']" JUndefined JUndefined Map.empty "JSet []" "JStr ''cdn/''" JUndefined
        "\<lparr>head = [], body = []\<rparr>"]
    by (simp add: posix_parse_app_css posix_parse_app_js in1)
qed

section \<open>Auxiliary facts about the loops\<close>

lemma in_concat_map_filter:
  "x \<in> set xs \<Longrightarrow> P x \<Longrightarrow> y \<in> set (g x) \<Longrightarrow> y \<in> set (concat (map g (filter P xs)))"
  by auto

lemma in_set_append_right: "y \<in> set ys \<Longrightarrow> y \<in> set (xs @ ys)"
  by simp

lemma in_set_second: "y \<in> set [x, y]"
  by simp

lemma processExternals_body_mem:
  assumes "e \<in> set es" and "pos e = p" and "external_type extname e \<noteq> JStr ''css''"
  shows "script_tag m n (crossorigin e) (file' e)
           \<in> set (body (extrenalsProcessorFactory extname (injectCSSandJSFactory m n) (Some es) p d))"
  unfolding processExternals_body
  apply (rule in_set_append_right)
  apply (rule in_concat_map_filter [where x = e])
    apply (rule assms(1))
   apply (rule conjI [OF assms(2) assms(3)])
  apply (rule in_set_second)
  done

lemma preload_has_error: "preload_has preload v = Inl e \<Longrightarrow> e = TypeError"
  by (cases preload) (simp_all add: preload_has_def)

lemma inject_file_error:
  assumes "inject_file parse ij ents dyns preload prefix inject f d = Inl e"
  shows "e = TypeError"
proof (cases "preload_has preload (js_get dyns (fst (parse (fileName f))))")
  case (Inl e')
  then have "e' = TypeError" by (rule preload_has_error)
  then show ?thesis
    using assms Inl by (simp add: inject_file_def Let_def split: if_splits)
next
  case (Inr b)
  then show ?thesis
    using assms by (simp add: inject_file_def Let_def split: if_splits option.splits)
qed

lemma forEach_error:
  assumes "\<And>x s e. f x s = Inl e \<Longrightarrow> e = TypeError"
      and "x \<in> set xs" and "\<And>s. f x s = Inl TypeError"
  shows "forEach f xs s = Inl TypeError"
  using assms(2)
proof (induction xs arbitrary: s)
  case Nil
  then show ?case by simp
next
  case (Cons y ys)
  show ?case
  proof (cases "f y s")
    case (Inl e)
    then show ?thesis using assms(1) by auto
  next
    case (Inr s')
    show ?thesis
    proof (cases "x = y")
      case True
      then show ?thesis using assms(3) [of s] Inr by simp
    next
      case False
      then show ?thesis using Cons Inr by simp
    qed
  qed
qed

lemma posix_parse_chunk_js:
  "fst (posix_parse ''chunk.js'') = ''chunk''" "snd (posix_parse ''chunk.js'') = ''.js''"
  by (simp_all add: posix_parse_def posix_base_def Let_def)

lemma js_in_js_set_same: "js_in k (js_set obj k v)"
  by (simp add: js_in_def js_set_def object_prototype_keys_def)

lemma js_in_js_set_mono: "js_in k obj \<Longrightarrow> js_in k (js_set obj k' v)"
  by (simp add: js_in_def js_set_def)

lemma bundleReducer_entries_mono:
  "js_in k (entries idx) \<Longrightarrow> js_in k (entries (bundleReducer parse idx f))"
  by (simp add: bundleReducer_def Let_def js_in_js_set_mono)

lemma bundleReducer_dynamicEntries_mono:
  "js_in k (dynamicEntries idx) \<Longrightarrow> js_in k (dynamicEntries (bundleReducer parse idx f))"
  by (simp add: bundleReducer_def Let_def js_in_js_set_mono)

lemma reduce_entries_mono:
  "js_in k (entries idx) \<Longrightarrow> js_in k (entries (foldl (bundleReducer parse) idx fs))"
  by (induction fs arbitrary: idx) (simp_all add: bundleReducer_entries_mono)

lemma reduce_dynamicEntries_mono:
  "js_in k (dynamicEntries idx) \<Longrightarrow> js_in k (dynamicEntries (foldl (bundleReducer parse) idx fs))"
  by (induction fs arbitrary: idx) (simp_all add: bundleReducer_dynamicEntries_mono)

lemma reduce_entries_member:
  assumes "f \<in> set fs" and "isChunk f" and "isEntry f"
  shows "js_in (fst (parse (fileName f))) (entries (foldl (bundleReducer parse) idx fs))"
  using assms(1)
proof (induction fs arbitrary: idx)
  case Nil
  then show ?case by simp
next
  case (Cons g gs)
  show ?case
  proof (cases "f = g")
    case True
    have "js_in (fst (parse (fileName f))) (entries (bundleReducer parse idx f))"
      using assms(2,3) by (simp add: bundleReducer_def Let_def js_in_js_set_same)
    then show ?thesis
      using True by (simp add: reduce_entries_mono)
  next
    case False
    then show ?thesis using Cons by simp
  qed
qed

lemma reduce_dynamicEntries_member:
  assumes "f \<in> set fs" and "isChunk f" and "\<not> isEntry f" and "isDynamicEntry f"
  shows "js_in (fst (parse (fileName f))) (dynamicEntries (foldl (bundleReducer parse) idx fs))"
  using assms(1)
proof (induction fs arbitrary: idx)
  case Nil
  then show ?case by simp
next
  case (Cons g gs)
  show ?case
  proof (cases "f = g")
    case True
    have "js_in (fst (parse (fileName f))) (dynamicEntries (bundleReducer parse idx f))"
      using assms(2,3,4) by (simp add: bundleReducer_def Let_def js_in_js_set_same)
    then show ?thesis
      using True by (simp add: reduce_dynamicEntries_mono)
  next
    case False
    then show ?thesis using Cons by simp
  qed
qed

lemma inject_file_entry:
  assumes "js_in (fst (parse (fileName f))) ents"
  shows "inject_file parse ij ents dyns preload prefix inject f d =
           Inr (ij (ToString prefix @ fileName f) (JStr (drop 1 (snd (parse (fileName f))))) inject JUndefined d)"
  using assms by (simp add: inject_file_def Let_def)

lemma inject_file_other:
  assumes "\<not> js_in (fst (parse (fileName f))) ents"
      and "inject_file parse ij ents dyns preload prefix inject f d = Inr d'"
  shows "d' = d \<or> d' = d\<lparr>head := head d @ [newline_text, preload_tag (ToString prefix @ fileName f) ''style'']\<rparr>
       \<or> d' = d\<lparr>head := head d @ [newline_text, preload_tag (ToString prefix @ fileName f) ''script'']\<rparr>"
proof (cases "preload_has preload (js_get dyns (fst (parse (fileName f))))")
  case (Inl e)
  then show ?thesis
    using assms by (simp add: inject_file_def Let_def split: if_splits)
next
  case (Inr b)
  then show ?thesis
    using assms
    by (auto simp add: inject_file_def Let_def extensionToType_def appendChild_def addNewLine_def
        split: if_splits)
qed

lemma inject_file_appends:
  assumes "inject_file parse (injectCSSandJSFactory m n) ents dyns preload prefix inject f d = Inr d'"
  shows "\<exists>H B. head d' = head d @ H \<and> body d' = body d @ B
           \<and> (\<forall>x\<in>set H \<union> set B. x = newline_text
                  \<or> generated_node m n (ToString prefix @ fileName f) x)"
proof (cases "js_in (fst (parse (fileName f))) ents")
  case True
  let ?url = "ToString prefix @ fileName f"
  let ?t = "JStr (drop 1 (snd (parse (fileName f))))"
  have d': "d' = injectCSSandJSFactory m n ?url ?t inject JUndefined d"
    using assms inject_file_entry [where parse = parse and f = f, OF True] by simp
  let ?H = "(if ?t = JStr ''css''
               then (if inject = JStr ''body'' then [] else [newline_text, stylesheet_tag JUndefined ?url])
               else (if inject = JStr ''head'' then [newline_text, script_tag m n JUndefined ?url] else []))"
  let ?B = "(if ?t = JStr ''css''
               then (if inject = JStr ''body'' then [newline_text, stylesheet_tag JUndefined ?url] else [])
               else (if inject = JStr ''head'' then [] else [newline_text, script_tag m n JUndefined ?url]))"
  have "head d' = head d @ ?H" unfolding d' by (rule injector_head)
  moreover have "body d' = body d @ ?B" unfolding d' by (rule injector_body)
  moreover have "\<forall>x\<in>set ?H \<union> set ?B. x = newline_text \<or> generated_node m n ?url x"
    by (simp split: if_splits)
  ultimately show ?thesis by blast
next
  case False
  from inject_file_other [where parse = parse and f = f, OF False assms]
  consider "d' = d"
    | "d' = d\<lparr>head := head d @ [newline_text, preload_tag (ToString prefix @ fileName f) ''style'']\<rparr>"
    | "d' = d\<lparr>head := head d @ [newline_text, preload_tag (ToString prefix @ fileName f) ''script'']\<rparr>"
    by blast
  then show ?thesis
  proof cases
    case 1
    then have "head d' = head d @ [] \<and> body d' = body d @ []
       \<and> (\<forall>x\<in>set [] \<union> set []. x = newline_text \<or> generated_node m n (ToString prefix @ fileName f) x)"
      by simp
    then show ?thesis by blast
  next
    case 2
    then have "head d' = head d @ [newline_text, preload_tag (ToString prefix @ fileName f) ''style'']
       \<and> body d' = body d @ []
       \<and> (\<forall>x\<in>set [newline_text, preload_tag (ToString prefix @ fileName f) ''style''] \<union> set [].
             x = newline_text \<or> generated_node m n (ToString prefix @ fileName f) x)"
      by simp
    then show ?thesis by blast
  next
    case 3
    then have "head d' = head d @ [newline_text, preload_tag (ToString prefix @ fileName f) ''script'']
       \<and> body d' = body d @ []
       \<and> (\<forall>x\<in>set [newline_text, preload_tag (ToString prefix @ fileName f) ''script''] \<union> set [].
             x = newline_text \<or> generated_node m n (ToString prefix @ fileName f) x)"
      by simp
    then show ?thesis by blast
  qed
qed


lemma forEach_inject_appends:
  assumes "forEach (inject_file parse (injectCSSandJSFactory m n) ents dyns preload prefix inject) fs d = Inr r"
  shows "\<exists>H B. head r = head d @ H \<and> body r = body d @ B
           \<and> (\<forall>x\<in>set H \<union> set B. x = newline_text
                  \<or> (\<exists>f\<in>set fs. generated_node m n (ToString prefix @ fileName f) x))"
  using assms
proof (induction fs arbitrary: d)
  case Nil
  then have "head r = head d @ [] \<and> body r = body d @ []
     \<and> (\<forall>x\<in>set [] \<union> set []. x = newline_text
            \<or> (\<exists>f\<in>set []. generated_node m n (ToString prefix @ fileName f) x))"
    by simp
  then show ?case by blast
next
  case (Cons g gs)
  let ?step = "inject_file parse (injectCSSandJSFactory m n) ents dyns preload prefix inject"
  from Cons.prems obtain d' where d': "?step g d = Inr d'" and rest: "forEach ?step gs d' = Inr r"
    by (auto split: sum.splits)
  from inject_file_appends [OF d'] obtain H1 B1 where
    1: "head d' = head d @ H1" "body d' = body d @ B1"
       "\<forall>x\<in>set H1 \<union> set B1. x = newline_text \<or> generated_node m n (ToString prefix @ fileName g) x"
    by blast
  from Cons.IH [OF rest] obtain H2 B2 where
    2: "head r = head d' @ H2" "body r = body d' @ B2"
       "\<forall>x\<in>set H2 \<union> set B2. x = newline_text
           \<or> (\<exists>f\<in>set gs. generated_node m n (ToString prefix @ fileName f) x)"
    by blast
  have a: "head r = head d @ (H1 @ H2)" "body r = body d @ (B1 @ B2)"
    using 1(1,2) 2(1,2) by simp_all
  have b: "\<forall>x\<in>set (H1 @ H2) \<union> set (B1 @ B2). x = newline_text
           \<or> (\<exists>f\<in>set (g # gs). generated_node m n (ToString prefix @ fileName f) x)"
  proof
    fix x assume "x \<in> set (H1 @ H2) \<union> set (B1 @ B2)"
    then consider "x \<in> set H1 \<union> set B1" | "x \<in> set H2 \<union> set B2" by auto
    then show "x = newline_text
           \<or> (\<exists>f\<in>set (g # gs). generated_node m n (ToString prefix @ fileName f) x)"
    proof cases
      case 1
      with \<open>\<forall>x\<in>set H1 \<union> set B1. _\<close> have
        "x = newline_text \<or> generated_node m n (ToString prefix @ fileName g) x" by blast
      then show ?thesis by (metis list.set_intros(1))
    next
      case 2
      with \<open>\<forall>x\<in>set H2 \<union> set B2. _\<close> have
        "x = newline_text \<or> (\<exists>f\<in>set gs. generated_node m n (ToString prefix @ fileName f) x)" by blast
      then show ?thesis by (metis list.set_intros(2))
    qed
  qed
  from a b show ?case by blast
qed

lemma forEach_inject_grows:
  assumes "forEach (inject_file parse (injectCSSandJSFactory m n) ents dyns preload prefix inject) fs d = Inr r"
  shows "set (head d) \<union> set (body d) \<subseteq> set (head r) \<union> set (body r)"
proof -
  from forEach_inject_appends [OF assms] obtain H B where
    "head r = head d @ H" "body r = body d @ B" by blast
  then show ?thesis by auto
qed

lemma injector_contains:
  "(if t = JStr ''css'' then stylesheet_tag co url else script_tag m n co url)
     \<in> set (head (injectCSSandJSFactory m n url t p co d))
       \<union> set (body (injectCSSandJSFactory m n url t p co d))"
  unfolding injector_head injector_body by simp

lemma forEach_inject_contains:
  assumes "forEach (inject_file parse (injectCSSandJSFactory m n) ents dyns preload prefix inject) fs d = Inr r"
      and "f \<in> set fs" and "js_in (fst (parse (fileName f))) ents"
  shows "(if drop 1 (snd (parse (fileName f))) = ''css''
          then stylesheet_tag JUndefined (ToString prefix @ fileName f)
          else script_tag m n JUndefined (ToString prefix @ fileName f))
         \<in> set (head r) \<union> set (body r)"
  using assms(1,2)
proof (induction fs arbitrary: d)
  case Nil
  then show ?case by simp
next
  case (Cons g gs)
  let ?step = "inject_file parse (injectCSSandJSFactory m n) ents dyns preload prefix inject"
  let ?tag = "(if drop 1 (snd (parse (fileName f))) = ''css''
          then stylesheet_tag JUndefined (ToString prefix @ fileName f)
          else script_tag m n JUndefined (ToString prefix @ fileName f))"
  from Cons.prems(1) obtain d' where d': "?step g d = Inr d'" and rest: "forEach ?step gs d' = Inr r"
    by (auto split: sum.splits)
  show ?case
  proof (cases "f = g")
    case True
    have "d' = injectCSSandJSFactory m n (ToString prefix @ fileName f)
                 (JStr (drop 1 (snd (parse (fileName f))))) inject JUndefined d"
      using d' True inject_file_entry [where parse = parse and f = f, OF assms(3)] by simp
    then have "?tag \<in> set (head d') \<union> set (body d')"
      using injector_contains [of "JStr (drop 1 (snd (parse (fileName f))))" JUndefined
          "ToString prefix @ fileName f" m n inject d]
      by simp
    then show ?thesis
      using forEach_inject_grows [OF rest] by blast
  next
    case False
    then have "f \<in> set gs" using Cons.prems(2) by simp
    then show ?thesis by (rule Cons.IH [OF rest])
  qed
qed

lemma inject_file_total:
  "\<exists>d'. inject_file parse ij ents dyns (JSet ps) prefix inject f d = Inr d'"
  by (simp add: inject_file_def Let_def preload_has_def split: option.splits)

lemma forEach_total:
  assumes "\<And>x s. \<exists>s'. f x s = Inr s'"
  shows "\<exists>r. forEach f xs s = Inr r"
proof (induction xs arbitrary: s)
  case Nil
  then show ?case by simp
next
  case (Cons y ys)
  from assms [of y s] obtain s' where "f y s = Inr s'" by blast
  then show ?case using Cons [of s'] by simp
qed


lemma inject_generated_unfold:
  assumes "inject \<noteq> JBool False" and "normalizePrefix onlinePath = Inr prefix"
  shows "inject_generated parse ij inject preload onlinePath files d =
           forEach (inject_file parse ij
                (entries (foldl (bundleReducer parse)
                   \<lparr>dynamicEntries = Map.empty, entries = Map.empty\<rparr> files))
                (dynamicEntries (foldl (bundleReducer parse)
                   \<lparr>dynamicEntries = Map.empty, entries = Map.empty\<rparr> files))
                (normalizePreload preload) prefix inject) files d"
  using assms by (simp add: inject_generated_def Let_def)



lemma inject_generated_appends:
  assumes "inject_generated parse (injectCSSandJSFactory m n) inject preload onlinePath files d = Inr r"
  shows "\<exists>H B. head r = head d @ H \<and> body r = body d @ B"
proof (cases "inject = JBool False")
  case True
  then have "r = d" using assms by (simp add: inject_generated_def)
  then have "head r = head d @ [] \<and> body r = body d @ []" by simp
  then show ?thesis by blast
next
  case False
  show ?thesis
  proof (cases "normalizePrefix onlinePath")
    case (Inl e)
    then show ?thesis using assms False by (simp add: inject_generated_def Let_def)
  next
    case (Inr prefix)
    from assms have "forEach (inject_file parse (injectCSSandJSFactory m n)
                (entries (foldl (bundleReducer parse)
                   \<lparr>dynamicEntries = Map.empty, entries = Map.empty\<rparr> files))
                (dynamicEntries (foldl (bundleReducer parse)
                   \<lparr>dynamicEntries = Map.empty, entries = Map.empty\<rparr> files))
                (normalizePreload preload) prefix inject) files d = Inr r"
      unfolding inject_generated_unfold [OF False Inr] .
    from forEach_inject_appends [OF this] show ?thesis by blast
  qed
qed

section \<open>The index and the pass over the generated files, exactly\<close>

lemma js_set_apply:
  "js_set m k v s = (if k = ''__proto__'' then m s else if s = k then Some v else m s)"
  by (simp add: js_set_def)

lemma bundleReducer_dynamicEntries:
  "dynamicEntries (bundleReducer parse prev g) =
     (if isChunk g \<and> \<not> isEntry g \<and> isDynamicEntry g
      then js_set (dynamicEntries prev) (fst (parse (fileName g))) (name g)
      else dynamicEntries prev)"
  by (simp add: bundleReducer_def Let_def)

lemma bundleReducer_entries:
  "entries (bundleReducer parse prev g) =
     (if isChunk g \<and> isEntry g
      then js_set (entries prev) (fst (parse (fileName g))) (name g)
      else entries prev)"
  by (simp add: bundleReducer_def Let_def)

lemma reduce_dynamicEntries_exact:
  "dynamicEntries (foldl (bundleReducer parse)
       \<lparr>dynamicEntries = Map.empty, entries = Map.empty\<rparr> files) s
     = recorded_name parse files s"
proof (induction files rule: rev_induct)
  case Nil
  then show ?case by simp
next
  case (snoc g gs)
  let ?prev = "foldl (bundleReducer parse) \<lparr>dynamicEntries = Map.empty, entries = Map.empty\<rparr> gs"
  let ?Q = "isChunk g \<and> \<not> isEntry g \<and> isDynamicEntry g"
  have unf: "dynamicEntries (foldl (bundleReducer parse)
       \<lparr>dynamicEntries = Map.empty, entries = Map.empty\<rparr> (gs @ [g])) s
     = (if ?Q then js_set (dynamicEntries ?prev) (fst (parse (fileName g))) (name g) s
        else dynamicEntries ?prev s)"
    by (simp add: bundleReducer_dynamicEntries)
  show ?case
  proof (cases "s = ''__proto__''")
    case True
    have "dynamicEntries ?prev s = None" using snoc True by simp
    then show ?thesis
      unfolding unf js_set_apply using True by simp
  next
    case False
    show ?thesis
    proof (cases "?Q \<and> fst (parse (fileName g)) = s")
      case True
      then show ?thesis
        unfolding unf js_set_apply using False by simp
    next
      case no: False
      have "dynamicEntries ?prev s = recorded_name parse gs s" by (rule snoc)
      then show ?thesis
        unfolding unf js_set_apply using False no by auto
    qed
  qed
qed

lemma reduce_entries_own:
  "entries (foldl (bundleReducer parse)
       \<lparr>dynamicEntries = Map.empty, entries = Map.empty\<rparr> files) s \<noteq> None
     \<longleftrightarrow> s \<noteq> ''__proto__''
         \<and> (\<exists>g\<in>set files. isChunk g \<and> isEntry g \<and> fst (parse (fileName g)) = s)"
proof (induction files rule: rev_induct)
  case Nil
  then show ?case by simp
next
  case (snoc g gs)
  let ?prev = "foldl (bundleReducer parse) \<lparr>dynamicEntries = Map.empty, entries = Map.empty\<rparr> gs"
  have unf: "entries (foldl (bundleReducer parse)
       \<lparr>dynamicEntries = Map.empty, entries = Map.empty\<rparr> (gs @ [g])) s
     = (if isChunk g \<and> isEntry g then js_set (entries ?prev) (fst (parse (fileName g))) (name g) s
        else entries ?prev s)"
    by (simp add: bundleReducer_entries)
  show ?case
    unfolding unf js_set_apply using snoc by auto
qed

lemma proto_is_prototype_key: "''__proto__'' \<in> set object_prototype_keys"
  by (simp add: object_prototype_keys_def)

lemma reduce_entries_in:
  "js_in s (entries (foldl (bundleReducer parse)
       \<lparr>dynamicEntries = Map.empty, entries = Map.empty\<rparr> files))
     \<longleftrightarrow> entry_stem parse files s"
  unfolding js_in_def reduce_entries_own
  using proto_is_prototype_key by blast

lemma inject_file_exact:
  "inject_file parse (injectCSSandJSFactory m n) ents dyns (JSet ps) prefix inject f d =
     Inr (d\<lparr>head := head d @
              generated_head_nodes m n inject (ToString prefix @ fileName f)
                (drop 1 (snd (parse (fileName f))))
                (js_in (fst (parse (fileName f))) ents)
                (\<exists>l. dyns (fst (parse (fileName f))) = Some l \<and> JStr l \<in> set ps),
            body := body d @
              generated_body_nodes m n inject (ToString prefix @ fileName f)
                (drop 1 (snd (parse (fileName f))))
                (js_in (fst (parse (fileName f))) ents)\<rparr>)"
proof (cases "js_in (fst (parse (fileName f))) ents")
  case True
  then show ?thesis
    by (simp add: inject_file_def Let_def injectCSSandJSFactory_def appendChild_def addNewLine_def)
next
  case False
  show ?thesis
  proof (cases "dyns (fst (parse (fileName f)))")
    case None
    then show ?thesis
      using False
      by (simp add: inject_file_def Let_def preload_has_def js_get_def js_in_def)
  next
    case (Some l)
    then have "js_in (fst (parse (fileName f))) dyns" by (simp add: js_in_def)
    then show ?thesis
      using False Some
      by (simp add: inject_file_def Let_def preload_has_def js_get_def extensionToType_def
          appendChild_def addNewLine_def)
  qed
qed

lemma forEach_exact:
  assumes "\<And>f d. step f d = Inr (d\<lparr>head := head d @ H f, body := body d @ B f\<rparr>)"
  shows "forEach step fs d =
           Inr (d\<lparr>head := head d @ concat (map H fs), body := body d @ concat (map B fs)\<rparr>)"
proof (induction fs arbitrary: d)
  case Nil
  then show ?case by simp
next
  case (Cons g gs)
  show ?case
    using Cons [of "d\<lparr>head := head d @ H g, body := body d @ B g\<rparr>"]
    by (simp add: assms)
qed

lemma inject_generated_exact:
  assumes "inject \<noteq> JBool False" and "normalizePrefix onlinePath = Inr prefix"
      and "normalizePreload preload = JSet ps"
  shows "inject_generated parse (injectCSSandJSFactory modules nomodule) inject preload onlinePath
           files d =
     Inr (d\<lparr>head := head d @ concat (map (\<lambda>f.
              generated_head_nodes modules nomodule inject (ToString prefix @ fileName f)
                (drop 1 (snd (parse (fileName f))))
                (entry_stem parse files (fst (parse (fileName f))))
                (\<exists>l. recorded_name parse files (fst (parse (fileName f))) = Some l
                      \<and> JStr l \<in> set ps)) files),
            body := body d @ concat (map (\<lambda>f.
              generated_body_nodes modules nomodule inject (ToString prefix @ fileName f)
                (drop 1 (snd (parse (fileName f))))
                (entry_stem parse files (fst (parse (fileName f))))) files)\<rparr>)"
proof -
  let ?idx = "foldl (bundleReducer parse) \<lparr>dynamicEntries = Map.empty, entries = Map.empty\<rparr> files"
  have "inject_generated parse (injectCSSandJSFactory modules nomodule) inject preload onlinePath
           files d
        = forEach (inject_file parse (injectCSSandJSFactory modules nomodule) (entries ?idx)
             (dynamicEntries ?idx) (JSet ps) prefix inject) files d"
    using assms by (simp add: inject_generated_def Let_def)
  also have "\<dots> =
     Inr (d\<lparr>head := head d @ concat (map (\<lambda>f.
              generated_head_nodes modules nomodule inject (ToString prefix @ fileName f)
                (drop 1 (snd (parse (fileName f))))
                (js_in (fst (parse (fileName f))) (entries ?idx))
                (\<exists>l. dynamicEntries ?idx (fst (parse (fileName f))) = Some l
                      \<and> JStr l \<in> set ps)) files),
            body := body d @ concat (map (\<lambda>f.
              generated_body_nodes modules nomodule inject (ToString prefix @ fileName f)
                (drop 1 (snd (parse (fileName f))))
                (js_in (fst (parse (fileName f))) (entries ?idx))) files)\<rparr>)"
    by (rule forEach_exact) (rule inject_file_exact)
  finally show ?thesis
    by (simp only: reduce_entries_in reduce_dynamicEntries_exact)
qed






lemma normalizePrefix_unset: "normalizePrefix JUndefined = Inr (JStr [])"
  by (simp add: normalizePrefix_def Let_def)

lemma normalizePreload_unset: "normalizePreload JUndefined = JSet []"
  by (simp add: normalizePreload_def Let_def new_Set_def)





section \<open>Module attributes on external scripts\<close>

text \<open>
  C9: the module attribute is part of every script the injector creates, so it is also on
  the scripts of the externals. For a configuration that \<^verbatim>\<open>outputOptions\<close> accepts
  (\<^verbatim>\<open>modules\<close> and \<^verbatim>\<open>nomodule\<close> not both set) and every external that is processed as a
  script: with \<^verbatim>\<open>modules\<close> enabled the script appended to \<^verbatim>\<open>body\<close> carries
  \<^verbatim>\<open>type="module"\<close>, and with \<^verbatim>\<open>nomodule\<close> enabled it carries the bare \<^verbatim>\<open>nomodule\<close>.
\<close>

theorem external_scripts_module_attribute:
  assumes "outputOptions_modules modules nomodule = Inr ()"
      and "e \<in> set es" and "pos e = processPos"
      and "external_type extname e \<noteq> JStr ''css''"
  shows \<open>(truthy modules \<longrightarrow>
            HTMLElement ''script'' (''type="module" '' @ cors (crossorigin e) @ ''src="'' @ file' e @ ''"'') []
              \<in> set (body (extrenalsProcessorFactory extname (injectCSSandJSFactory modules nomodule)
                              (Some es) processPos d)))
       \<and> (truthy nomodule \<longrightarrow>
            HTMLElement ''script'' (''nomodule '' @ cors (crossorigin e) @ ''src="'' @ file' e @ ''"'') []
              \<in> set (body (extrenalsProcessorFactory extname (injectCSSandJSFactory modules nomodule)
                              (Some es) processPos d)))\<close>
proof -
  have mem: "script_tag modules nomodule (crossorigin e) (file' e)
          \<in> set (body (extrenalsProcessorFactory extname (injectCSSandJSFactory modules nomodule)
                          (Some es) processPos d))"
    by (rule processExternals_body_mem [where e = e and extname = extname, OF assms(2-4)])
  have excl: "truthy nomodule \<Longrightarrow> \<not> truthy modules"
    using assms(1) by (simp add: outputOptions_modules_def split: if_splits)
  have m1: \<open>truthy modules \<Longrightarrow> moduleattr modules nomodule = ''type="module" ''\<close>
    by (simp add: moduleattr_def)
  have m2: \<open>truthy nomodule \<Longrightarrow> moduleattr modules nomodule = ''nomodule ''\<close>
    using excl by (simp add: moduleattr_def)
  show ?thesis
  proof (intro conjI impI)
    assume "truthy modules"
    from mem show \<open>HTMLElement ''script'' (''type="module" '' @ cors (crossorigin e) @ ''src="'' @ file' e @ ''"'') []
              \<in> set (body (extrenalsProcessorFactory extname (injectCSSandJSFactory modules nomodule)
                              (Some es) processPos d))\<close>
      unfolding m1 [OF \<open>truthy modules\<close>] .
  next
    assume "truthy nomodule"
    from mem show \<open>HTMLElement ''script'' (''nomodule '' @ cors (crossorigin e) @ ''src="'' @ file' e @ ''"'') []
              \<in> set (body (extrenalsProcessorFactory extname (injectCSSandJSFactory modules nomodule)
                              (Some es) processPos d))\<close>
      unfolding m2 [OF \<open>truthy nomodule\<close>] .
  qed
qed


theorem external_scripts_module_attribute_witness:
  \<open>outputOptions_modules (JBool True) JUndefined = Inr ()
   \<and> HTMLElement ''script'' (''type="module" '' @ cors JUndefined @ ''src="'' @ ''app.js'' @ ''"'') []
      \<in> set (body (extrenalsProcessorFactory posix_extname (injectCSSandJSFactory (JBool True) JUndefined)
        (Some [\<lparr>pos = JStr ''before'', file' = ''app.js'', type = JUndefined, crossorigin = JUndefined\<rparr>])
        (JStr ''before'') \<lparr>head = [], body = []\<rparr>))
   \<and> outputOptions_modules JUndefined (JBool True) = Inr ()
   \<and> HTMLElement ''script'' (''nomodule '' @ cors JUndefined @ ''src="'' @ ''app.js'' @ ''"'') []
      \<in> set (body (extrenalsProcessorFactory posix_extname (injectCSSandJSFactory JUndefined (JBool True))
        (Some [\<lparr>pos = JStr ''before'', file' = ''app.js'', type = JUndefined, crossorigin = JUndefined\<rparr>])
        (JStr ''before'') \<lparr>head = [], body = []\<rparr>))\<close>
proof -
  let ?e = "\<lparr>pos = JStr ''before'', file' = ''app.js'', type = JUndefined, crossorigin = JUndefined\<rparr>"
  have ext: "posix_extname ''app.js'' = ''.js''"
    by (simp add: posix_extname_def posix_parse_app_js)
  have ty: "external_type posix_extname ?e \<noteq> JStr ''css''"
    by (simp add: ext)
  have ok: "outputOptions_modules (JBool True) JUndefined = Inr ()"
           "outputOptions_modules JUndefined (JBool True) = Inr ()"
    by (simp_all add: outputOptions_modules_def)
  have mem: "?e \<in> set [?e]" by simp
  have p: "pos ?e = JStr ''before''" by simp
  have t: "truthy (JBool True)" by simp
  show ?thesis
    using external_scripts_module_attribute [where e = ?e and extname = posix_extname and d = "\<lparr>head = [], body = []\<rparr>",
        OF ok(1) mem p ty]
      external_scripts_module_attribute [where e = ?e and extname = posix_extname and d = "\<lparr>head = [], body = []\<rparr>",
        OF ok(2) mem p ty]
      ok t
    by simp
qed

section \<open>Preload links\<close>




section \<open>Files that share the stem of an entry\<close>

text \<open>
  C4: let \<open>f1\<close> be an entry chunk of the bundle and \<open>f2\<close> a file of the bundle with the
  same stem, of any kind and with any flags, and let \<^verbatim>\<open>inject\<close> not be \<^verbatim>\<open>false\<close>. The pass
  over the generated files returns when the preload option normalises to a set, and
  whenever it returns, the tags of both files are in the document, and every node the pass
  has appended is the newline text or a tag whose address is the normalised prefix
  followed by the \<^verbatim>\<open>fileName\<close> of a file of the bundle, unchanged.
\<close>

theorem co_named_entry_files_injected:
  assumes "f1 \<in> set files" and "isChunk f1" and "isEntry f1"
      and "f2 \<in> set files" and "fst (parse (fileName f2)) = fst (parse (fileName f1))"
      and "inject \<noteq> JBool False" and "normalizePrefix onlinePath = Inr prefix"
  shows "(\<forall>ps. normalizePreload preload = JSet ps \<longrightarrow>
            (\<exists>r. inject_generated parse (injectCSSandJSFactory modules nomodule)
                    inject preload onlinePath files d = Inr r))
       \<and> (\<forall>r. inject_generated parse (injectCSSandJSFactory modules nomodule)
                 inject preload onlinePath files d = Inr r \<longrightarrow>
            (\<forall>f\<in>{f1, f2}.
               (if drop 1 (snd (parse (fileName f))) = ''css''
                then stylesheet_tag JUndefined (ToString prefix @ fileName f)
                else script_tag modules nomodule JUndefined (ToString prefix @ fileName f))
               \<in> set (head r) \<union> set (body r))
            \<and> (\<exists>H B. head r = head d @ H \<and> body r = body d @ B
                 \<and> (\<forall>x\<in>set H \<union> set B. x = newline_text
                      \<or> (\<exists>f\<in>set files.
                           generated_node modules nomodule (ToString prefix @ fileName f) x))))"
proof (intro conjI allI impI)
  fix ps
  assume "normalizePreload preload = JSet ps"
  then show "\<exists>r. inject_generated parse (injectCSSandJSFactory modules nomodule)
                    inject preload onlinePath files d = Inr r"
    unfolding inject_generated_unfold [OF assms(6,7)]
    by (simp add: forEach_total inject_file_total)
next
  fix r
  assume "inject_generated parse (injectCSSandJSFactory modules nomodule)
                 inject preload onlinePath files d = Inr r"
  then have run: "forEach (inject_file parse (injectCSSandJSFactory modules nomodule)
                (entries (foldl (bundleReducer parse)
                   \<lparr>dynamicEntries = Map.empty, entries = Map.empty\<rparr> files))
                (dynamicEntries (foldl (bundleReducer parse)
                   \<lparr>dynamicEntries = Map.empty, entries = Map.empty\<rparr> files))
                (normalizePreload preload) prefix inject) files d = Inr r"
    unfolding inject_generated_unfold [OF assms(6,7)] .
  have in1: "js_in (fst (parse (fileName f1)))
               (entries (foldl (bundleReducer parse)
                   \<lparr>dynamicEntries = Map.empty, entries = Map.empty\<rparr> files))"
    by (rule reduce_entries_member [where parse = parse and f = f1, OF assms(1,2,3)])
  then have in2: "js_in (fst (parse (fileName f2)))
               (entries (foldl (bundleReducer parse)
                   \<lparr>dynamicEntries = Map.empty, entries = Map.empty\<rparr> files))"
    using assms(5) by simp
  have t1: "(if drop 1 (snd (parse (fileName f1))) = ''css''
                then stylesheet_tag JUndefined (ToString prefix @ fileName f1)
                else script_tag modules nomodule JUndefined (ToString prefix @ fileName f1))
               \<in> set (head r) \<union> set (body r)"
    by (rule forEach_inject_contains [where parse = parse and f = f1, OF run assms(1) in1])
  have t2: "(if drop 1 (snd (parse (fileName f2))) = ''css''
                then stylesheet_tag JUndefined (ToString prefix @ fileName f2)
                else script_tag modules nomodule JUndefined (ToString prefix @ fileName f2))
               \<in> set (head r) \<union> set (body r)"
    by (rule forEach_inject_contains [where parse = parse and f = f2, OF run assms(4) in2])
  show "\<forall>f\<in>{f1, f2}.
               (if drop 1 (snd (parse (fileName f))) = ''css''
                then stylesheet_tag JUndefined (ToString prefix @ fileName f)
                else script_tag modules nomodule JUndefined (ToString prefix @ fileName f))
               \<in> set (head r) \<union> set (body r)"
    using t1 t2 by blast
  show "\<exists>H B. head r = head d @ H \<and> body r = body d @ B
                 \<and> (\<forall>x\<in>set H \<union> set B. x = newline_text
                      \<or> (\<exists>f\<in>set files.
                           generated_node modules nomodule (ToString prefix @ fileName f) x))"
    by (rule forEach_inject_appends [OF run])
qed

theorem co_named_entry_files_injected_witness:
  "\<exists>r. inject_generated posix_parse (injectCSSandJSFactory JUndefined JUndefined) JUndefined JUndefined
          (JStr ''cdn'')
          [\<lparr>file_type = ''chunk'', fileName = ''app.js'', isEntry = True, isDynamicEntry = False,
              name = ''main''\<rparr>,
           \<lparr>file_type = ''asset'', fileName = ''app.css'', isEntry = False, isDynamicEntry = False,
              name = ''app.css''\<rparr>]
          \<lparr>head = [], body = []\<rparr> = Inr r
       \<and> script_tag JUndefined JUndefined JUndefined ''cdn/app.js'' \<in> set (head r) \<union> set (body r)
       \<and> stylesheet_tag JUndefined ''cdn/app.css'' \<in> set (head r) \<union> set (body r)"
proof -
  let ?f1 = "\<lparr>file_type = ''chunk'', fileName = ''app.js'', isEntry = True, isDynamicEntry = False,
              name = ''main''\<rparr>"
  let ?f2 = "\<lparr>file_type = ''asset'', fileName = ''app.css'', isEntry = False, isDynamicEntry = False,
              name = ''app.css''\<rparr>"
  let ?d = "\<lparr>head = [], body = []\<rparr>"
  have a1: "?f1 \<in> set [?f1, ?f2]" by simp
  have a2: "isChunk ?f1" by (simp add: isChunk_def)
  have a3: "isEntry ?f1" by simp
  have a4: "?f2 \<in> set [?f1, ?f2]" by simp
  have a5: "fst (posix_parse (fileName ?f2)) = fst (posix_parse (fileName ?f1))"
    by (simp add: posix_parse_app_js posix_parse_app_css)
  have a6: "JUndefined \<noteq> JBool False" by simp
  have a7: "normalizePrefix (JStr ''cdn'') = Inr (JStr ''cdn/'')"
    by (simp add: normalizePrefix_def endsWith_def)
  have np: "normalizePreload JUndefined = JSet []"
    by (simp add: normalizePreload_def new_Set_def)
  note inst = co_named_entry_files_injected [where parse = posix_parse and ?f1.0 = ?f1
      and ?f2.0 = ?f2 and modules = JUndefined and nomodule = JUndefined and preload = JUndefined
      and d = ?d, OF a1 a2 a3 a4 a5 a6 a7]
  from inst [THEN conjunct1, THEN spec, THEN mp, OF np] obtain r where
    r: "inject_generated posix_parse (injectCSSandJSFactory JUndefined JUndefined) JUndefined JUndefined
          (JStr ''cdn'') [?f1, ?f2] ?d = Inr r"
    by blast
  from inst [THEN conjunct2, THEN spec, THEN mp, OF r, THEN conjunct1]
  have tags: "\<forall>f\<in>{?f1, ?f2}.
               (if drop 1 (snd (posix_parse (fileName f))) = ''css''
                then stylesheet_tag JUndefined (ToString (JStr ''cdn/'') @ fileName f)
                else script_tag JUndefined JUndefined JUndefined (ToString (JStr ''cdn/'') @ fileName f))
               \<in> set (head r) \<union> set (body r)" .
  have t1: "script_tag JUndefined JUndefined JUndefined ''cdn/app.js'' \<in> set (head r) \<union> set (body r)"
    using tags [THEN bspec, of ?f1] by (simp add: posix_parse_app_js)
  have t2: "stylesheet_tag JUndefined ''cdn/app.css'' \<in> set (head r) \<union> set (body r)"
    using tags [THEN bspec, of ?f2] by (simp add: posix_parse_app_css)
  from r t1 t2 show ?thesis by blast
qed

section \<open>Placement of the externals\<close>

text \<open>
  C3, as stated, fails: an external object that carries an insert point \<^verbatim>\<open>head\<close> and is
  processed as a script is appended to \<^verbatim>\<open>body\<close>, and \<^verbatim>\<open>head\<close> stays empty. The loop over
  the externals reads \<^verbatim>\<open>pos\<close>, \<^verbatim>\<open>file\<close>, \<^verbatim>\<open>type\<close> and \<^verbatim>\<open>crossorigin\<close> only and passes
  \<^verbatim>\<open>undefined\<close> as the position argument of the injector.
\<close>

theorem external_insert_point_ignored:
  "extrenalsProcessorFactory posix_extname (injectCSSandJSFactory JUndefined JUndefined)
     (Some [\<lparr>pos = JStr ''before'', file' = ''app.js'', type = JUndefined, crossorigin = JUndefined,
              \<dots> = [(''insertPoint'', JStr ''head'')]\<rparr>])
     (JStr ''before'') \<lparr>head = [], body = []\<rparr>
   = \<lparr>head = [], body = [newline_text, script_tag JUndefined JUndefined JUndefined ''app.js'']\<rparr>"
  by (simp add: extrenalsProcessorFactory_def injectCSSandJSFactory_def posix_extname_def
      posix_parse_app_js appendChild_def addNewLine_def)

text \<open>
  C3, amended: the externals have no insert point of their own. Every external whose
  position is the one being processed is appended at the default of its type, a stylesheet
  (type \<^verbatim>\<open>css\<close>) to \<^verbatim>\<open>head\<close> and a script (any other type) to \<^verbatim>\<open>body\<close>, in the order of
  the configuration; the tag carries the attribute \<^verbatim>\<open>crossorigin="value"\<close> when a
  cross-origin value is configured and no such attribute otherwise; whatever else the
  external object carries has no effect. The externals with position \<^verbatim>\<open>after\<close> are appended
  in the same way after everything the pass over the generated files has appended.
\<close>

theorem externals_placement:
  fixes es :: "'a external_scheme list"
  shows "head (extrenalsProcessorFactory extname (injectCSSandJSFactory modules nomodule) (Some es) p d)
          = head d @ concat (map (\<lambda>e. [newline_text, external_stylesheet e])
                      (filter (\<lambda>e. pos e = p \<and> external_type extname e = JStr ''css'') es))
       \<and> body (extrenalsProcessorFactory extname (injectCSSandJSFactory modules nomodule) (Some es) p d)
          = body d @ concat (map (\<lambda>e. [newline_text, external_script modules nomodule e])
                      (filter (\<lambda>e. pos e = p \<and> external_type extname e \<noteq> JStr ''css'') es))
       \<and> (\<forall>r. generateBundle_tags parse extname modules nomodule (Some es) inject preload onlinePath
                 files d = Inr r \<longrightarrow>
            (\<exists>H B.
               head r = head d
                 @ concat (map (\<lambda>e. [newline_text, external_stylesheet e])
                      (filter (\<lambda>e. pos e = JStr ''before'' \<and> external_type extname e = JStr ''css'') es))
                 @ H
                 @ concat (map (\<lambda>e. [newline_text, external_stylesheet e])
                      (filter (\<lambda>e. pos e = JStr ''after'' \<and> external_type extname e = JStr ''css'') es))
             \<and> body r = body d
                 @ concat (map (\<lambda>e. [newline_text, external_script modules nomodule e])
                      (filter (\<lambda>e. pos e = JStr ''before'' \<and> external_type extname e \<noteq> JStr ''css'') es))
                 @ B
                 @ concat (map (\<lambda>e. [newline_text, external_script modules nomodule e])
                      (filter (\<lambda>e. pos e = JStr ''after'' \<and> external_type extname e \<noteq> JStr ''css'') es))))"
proof (intro conjI allI impI)
  show "head (extrenalsProcessorFactory extname (injectCSSandJSFactory modules nomodule) (Some es) p d)
          = head d @ concat (map (\<lambda>e. [newline_text, external_stylesheet e])
                      (filter (\<lambda>e. pos e = p \<and> external_type extname e = JStr ''css'') es))"
    by (rule processExternals_head [unfolded cors_def])
  show "body (extrenalsProcessorFactory extname (injectCSSandJSFactory modules nomodule) (Some es) p d)
          = body d @ concat (map (\<lambda>e. [newline_text, external_script modules nomodule e])
                      (filter (\<lambda>e. pos e = p \<and> external_type extname e \<noteq> JStr ''css'') es))"
    by (rule processExternals_body [unfolded cors_def])
next
  fix r
  let ?pe = "extrenalsProcessorFactory extname (injectCSSandJSFactory modules nomodule) (Some es)"
  let ?d1 = "?pe (JStr ''before'') d"
  assume "generateBundle_tags parse extname modules nomodule (Some es) inject preload onlinePath
                 files d = Inr r"
  then obtain d2 where
    gen: "inject_generated parse (injectCSSandJSFactory modules nomodule) inject preload onlinePath
            files ?d1 = Inr d2"
    and r: "r = ?pe (JStr ''after'') d2"
    by (auto simp: generateBundle_tags_def Let_def split: sum.splits)
  from inject_generated_appends [OF gen] obtain H B where
    HB: "head d2 = head ?d1 @ H" "body d2 = body ?d1 @ B" by blast
  have "head r = head d2 @ concat (map (\<lambda>e. [newline_text, external_stylesheet e])
                      (filter (\<lambda>e. pos e = JStr ''after'' \<and> external_type extname e = JStr ''css'') es))"
    unfolding r by (rule processExternals_head [unfolded cors_def])
  moreover have "head ?d1 = head d @ concat (map (\<lambda>e. [newline_text, external_stylesheet e])
                      (filter (\<lambda>e. pos e = JStr ''before'' \<and> external_type extname e = JStr ''css'') es))"
    by (rule processExternals_head [unfolded cors_def])
  moreover have "body r = body d2 @ concat (map (\<lambda>e. [newline_text, external_script modules nomodule e])
                      (filter (\<lambda>e. pos e = JStr ''after'' \<and> external_type extname e \<noteq> JStr ''css'') es))"
    unfolding r by (rule processExternals_body [unfolded cors_def])
  moreover have "body ?d1 = body d @ concat (map (\<lambda>e. [newline_text, external_script modules nomodule e])
                      (filter (\<lambda>e. pos e = JStr ''before'' \<and> external_type extname e \<noteq> JStr ''css'') es))"
    by (rule processExternals_body [unfolded cors_def])
  ultimately have "head r = head d
                 @ concat (map (\<lambda>e. [newline_text, external_stylesheet e])
                      (filter (\<lambda>e. pos e = JStr ''before'' \<and> external_type extname e = JStr ''css'') es))
                 @ H
                 @ concat (map (\<lambda>e. [newline_text, external_stylesheet e])
                      (filter (\<lambda>e. pos e = JStr ''after'' \<and> external_type extname e = JStr ''css'') es))
             \<and> body r = body d
                 @ concat (map (\<lambda>e. [newline_text, external_script modules nomodule e])
                      (filter (\<lambda>e. pos e = JStr ''before'' \<and> external_type extname e \<noteq> JStr ''css'') es))
                 @ B
                 @ concat (map (\<lambda>e. [newline_text, external_script modules nomodule e])
                      (filter (\<lambda>e. pos e = JStr ''after'' \<and> external_type extname e \<noteq> JStr ''css'') es))"
    using HB by (simp only: append_assoc)
  then show "\<exists>H B.
               head r = head d
                 @ concat (map (\<lambda>e. [newline_text, external_stylesheet e])
                      (filter (\<lambda>e. pos e = JStr ''before'' \<and> external_type extname e = JStr ''css'') es))
                 @ H
                 @ concat (map (\<lambda>e. [newline_text, external_stylesheet e])
                      (filter (\<lambda>e. pos e = JStr ''after'' \<and> external_type extname e = JStr ''css'') es))
             \<and> body r = body d
                 @ concat (map (\<lambda>e. [newline_text, external_script modules nomodule e])
                      (filter (\<lambda>e. pos e = JStr ''before'' \<and> external_type extname e \<noteq> JStr ''css'') es))
                 @ B
                 @ concat (map (\<lambda>e. [newline_text, external_script modules nomodule e])
                      (filter (\<lambda>e. pos e = JStr ''after'' \<and> external_type extname e \<noteq> JStr ''css'') es))"
    by blast
qed

theorem externals_placement_witness:
  \<open>generateBundle_tags posix_parse posix_extname JUndefined JUndefined
     (Some [\<lparr>pos = JStr ''after'', file' = ''app.js'', type = JUndefined,
               crossorigin = JStr ''use-credentials''\<rparr>,
            \<lparr>pos = JStr ''before'', file' = ''app.css'', type = JUndefined,
               crossorigin = JStr ''anonymous''\<rparr>,
            \<lparr>pos = JStr ''before'', file' = ''app.js'', type = JUndefined,
               crossorigin = JUndefined\<rparr>])
     JUndefined JUndefined JUndefined
     [\<lparr>file_type = ''chunk'', fileName = ''chunk.js'', isEntry = True, isDynamicEntry = False,
        name = ''chunk''\<rparr>]
     \<lparr>head = [], body = []\<rparr>
   = Inr \<lparr>head = [TextNode ''\<newline>  '',
                  HTMLElement ''link'' ''rel="stylesheet" crossorigin="anonymous" href="app.css"'' []],
          body = [TextNode ''\<newline>  '', HTMLElement ''script'' ''src="app.js"'' [],
                  TextNode ''\<newline>  '', HTMLElement ''script'' ''src="chunk.js"'' [],
                  TextNode ''\<newline>  '',
                  HTMLElement ''script'' ''crossorigin="use-credentials" src="app.js"'' []]\<rparr>\<close>
proof -
  let ?e1 = "\<lparr>pos = JStr ''after'', file' = ''app.js'', type = JUndefined,
               crossorigin = JStr ''use-credentials''\<rparr>"
  let ?e2 = "\<lparr>pos = JStr ''before'', file' = ''app.css'', type = JUndefined,
               crossorigin = JStr ''anonymous''\<rparr>"
  let ?e3 = "\<lparr>pos = JStr ''before'', file' = ''app.js'', type = JUndefined,
               crossorigin = JUndefined\<rparr>"
  let ?files = "[\<lparr>file_type = ''chunk'', fileName = ''chunk.js'', isEntry = True,
                   isDynamicEntry = False, name = ''chunk''\<rparr>]"
  let ?d = "\<lparr>head = [], body = []\<rparr>"
  let ?ij = "injectCSSandJSFactory JUndefined JUndefined"
  let ?pe = "extrenalsProcessorFactory posix_extname ?ij (Some [?e1, ?e2, ?e3])"
  let ?d1 = \<open>\<lparr>head = [TextNode ''\<newline>  '',
                  HTMLElement ''link'' ''rel="stylesheet" crossorigin="anonymous" href="app.css"'' []],
          body = [TextNode ''\<newline>  '', HTMLElement ''script'' ''src="app.js"'' []]\<rparr>\<close>
  let ?d2 = \<open>\<lparr>head = [TextNode ''\<newline>  '',
                  HTMLElement ''link'' ''rel="stylesheet" crossorigin="anonymous" href="app.css"'' []],
          body = [TextNode ''\<newline>  '', HTMLElement ''script'' ''src="app.js"'' [],
                  TextNode ''\<newline>  '', HTMLElement ''script'' ''src="chunk.js"'' []]\<rparr>\<close>
  let ?d3 = \<open>\<lparr>head = [TextNode ''\<newline>  '',
                  HTMLElement ''link'' ''rel="stylesheet" crossorigin="anonymous" href="app.css"'' []],
          body = [TextNode ''\<newline>  '', HTMLElement ''script'' ''src="app.js"'' [],
                  TextNode ''\<newline>  '', HTMLElement ''script'' ''src="chunk.js"'' [],
                  TextNode ''\<newline>  '',
                  HTMLElement ''script'' ''crossorigin="use-credentials" src="app.js"'' []]\<rparr>\<close>
  have t1: "posix_extname ''app.js'' = ''.js''"
    by (simp add: posix_extname_def posix_parse_app_js)
  have t2: "posix_extname ''app.css'' = ''.css''"
    by (simp add: posix_extname_def posix_parse_app_css)
  have rec: "x = \<lparr>head = head x, body = body x\<rparr>" for x :: document
    by simp
  note inst = externals_placement [where extname = posix_extname and modules = JUndefined
      and nomodule = JUndefined and es = "[?e1, ?e2, ?e3]"]
  have h1: "head (?pe (JStr ''before'') ?d) = head ?d1"
    unfolding inst [THEN conjunct1] by (simp add: t1 t2)
  have b1: "body (?pe (JStr ''before'') ?d) = body ?d1"
    unfolding inst [THEN conjunct2, THEN conjunct1] by (simp add: t1 t2 moduleattr_def)
  have d1: "?pe (JStr ''before'') ?d = ?d1"
    using h1 b1 rec [of "?pe (JStr ''before'') ?d"] by simp
  have J: "JUndefined \<noteq> JBool False" by simp
  have d2: "inject_generated posix_parse ?ij JUndefined JUndefined JUndefined ?files ?d1 = Inr ?d2"
    unfolding inject_generated_exact [OF J normalizePrefix_unset normalizePreload_unset]
    by (simp add: posix_parse_chunk_js isChunk_def moduleattr_def cors_def)
  have h3: "head (?pe (JStr ''after'') ?d2) = head ?d3"
    unfolding inst [THEN conjunct1] by (simp add: t1 t2)
  have b3: "body (?pe (JStr ''after'') ?d2) = body ?d3"
    unfolding inst [THEN conjunct2, THEN conjunct1] by (simp add: t1 t2 moduleattr_def)
  have d3: "?pe (JStr ''after'') ?d2 = ?d3"
    using h3 b3 rec [of "?pe (JStr ''after'') ?d2"] by simp
  have run: "generateBundle_tags posix_parse posix_extname JUndefined JUndefined
               (Some [?e1, ?e2, ?e3]) JUndefined JUndefined JUndefined ?files ?d = Inr ?d3"
    by (simp only: generateBundle_tags_def Let_def d1 d2 d3 sum.case)
  from inst [where parse = posix_parse, THEN conjunct2, THEN conjunct2, THEN spec, THEN mp, OF run]
  obtain H B where "head ?d3 = head ?d
        @ concat (map (\<lambda>e. [newline_text, external_stylesheet e])
             (filter (\<lambda>e. pos e = JStr ''before'' \<and> external_type posix_extname e = JStr ''css'')
                [?e1, ?e2, ?e3]))
        @ H
        @ concat (map (\<lambda>e. [newline_text, external_stylesheet e])
             (filter (\<lambda>e. pos e = JStr ''after'' \<and> external_type posix_extname e = JStr ''css'')
                [?e1, ?e2, ?e3]))"
    by blast
  from run show ?thesis .
qed

section \<open>A preload option that is not a set\<close>

text \<open>
  C10: \<^verbatim>\<open>normalizePreload\<close> returns the value \<^verbatim>\<open>true\<close> as it is, the membership test on it
  throws a \<^verbatim>\<open>TypeError\<close>, and so does the pass over the generated files whenever it reaches
  the test: \<^verbatim>\<open>inject\<close> is not \<^verbatim>\<open>false\<close>, the path prefix normalises, and the bundle has a
  dynamic-entry chunk whose stem is not \<^verbatim>\<open>in\<close> the entries.
\<close>

theorem preload_true_type_error:
  assumes "f \<in> set files" and "isChunk f" and "\<not> isEntry f" and "isDynamicEntry f"
      and "\<not> js_in (fst (parse (fileName f)))
               (entries (foldl (bundleReducer parse)
                  \<lparr>dynamicEntries = Map.empty, entries = Map.empty\<rparr> files))"
      and "inject \<noteq> JBool False"
      and "normalizePrefix onlinePath = Inr prefix"
  shows "normalizePreload (JBool True) = JBool True
       \<and> (\<forall>v. preload_has (normalizePreload (JBool True)) v = Inl TypeError)
       \<and> inject_generated parse injectCSSandJS inject (JBool True) onlinePath files d = Inl TypeError"
proof -
  have np: "normalizePreload (JBool True) = JBool True"
    by (simp add: normalizePreload_def)
  have has: "\<And>v. preload_has (JBool True) v = Inl TypeError"
    by (simp add: preload_has_def)
  let ?idx = "foldl (bundleReducer parse) \<lparr>dynamicEntries = Map.empty, entries = Map.empty\<rparr> files"
  have dyn: "js_in (fst (parse (fileName f))) (dynamicEntries ?idx)"
    by (rule reduce_dynamicEntries_member [where parse = parse and f = f, OF assms(1-4)])
  have step: "\<And>s. inject_file parse injectCSSandJS (entries ?idx) (dynamicEntries ?idx)
                  (JBool True) prefix inject f s = Inl TypeError"
    using assms(5) dyn by (simp add: inject_file_def has)
  have "forEach (inject_file parse injectCSSandJS (entries ?idx) (dynamicEntries ?idx)
                  (JBool True) prefix inject) files d = Inl TypeError"
  proof (rule forEach_error [where x = f])
    show "\<And>x s e. inject_file parse injectCSSandJS (entries ?idx) (dynamicEntries ?idx)
            (JBool True) prefix inject x s = Inl e \<Longrightarrow> e = TypeError"
      by (rule inject_file_error)
    show "f \<in> set files" by (rule assms(1))
    show "\<And>s. inject_file parse injectCSSandJS (entries ?idx) (dynamicEntries ?idx)
            (JBool True) prefix inject f s = Inl TypeError"
      by (rule step)
  qed
  then show ?thesis
    using assms(6,7) np has by (simp add: inject_generated_def)
qed

theorem preload_true_type_error_witness:
  "inject_generated posix_parse (injectCSSandJSFactory JUndefined JUndefined) JUndefined (JBool True)
     JUndefined
     [\<lparr>file_type = ''chunk'', fileName = ''chunk.js'', isEntry = False, isDynamicEntry = True,
        name = ''chunkA''\<rparr>]
     \<lparr>head = [], body = []\<rparr>
   = Inl TypeError"
proof -
  let ?f = "\<lparr>file_type = ''chunk'', fileName = ''chunk.js'', isEntry = False, isDynamicEntry = True,
        name = ''chunkA''\<rparr>"
  let ?idx = "foldl (bundleReducer posix_parse) \<lparr>dynamicEntries = Map.empty, entries = Map.empty\<rparr> [?f]"
  have idx: "?idx = \<lparr>dynamicEntries = [''chunk'' \<mapsto> ''chunkA''], entries = Map.empty\<rparr>"
    by (simp add: bundleReducer_def isChunk_def posix_parse_chunk_js js_set_def)
  have a1: "?f \<in> set [?f]" by simp
  have a2: "isChunk ?f" by (simp add: isChunk_def)
  have a3: "\<not> isEntry ?f" by simp
  have a4: "isDynamicEntry ?f" by simp
  have a5: "\<not> js_in (fst (posix_parse (fileName ?f))) (entries ?idx)"
    unfolding idx by (simp add: posix_parse_chunk_js js_in_def object_prototype_keys_def)
  have a6: "JUndefined \<noteq> JBool False" by simp
  have a7: "normalizePrefix JUndefined = Inr (JStr [])"
    by (simp add: normalizePrefix_def)
  show ?thesis
    using preload_true_type_error [where parse = posix_parse and f = ?f, OF a1 a2 a3 a4 a5 a6 a7] by blast
qed

section \<open>Creation of the head and body elements\<close>

lemma find_first_None_find_all: "find_first t i ns = None \<longleftrightarrow> find_all t i ns = []"
  by (induction t i ns rule: find_first.induct) (auto split: option.splits)

lemma find_first_hd_find_all:
  "find_first t i ns = Some p \<Longrightarrow> find_all t i ns \<noteq> [] \<and> fst (hd (find_all t i ns)) = p"
proof (induction t i ns arbitrary: p rule: find_first.induct)
  case (1 t i)
  then show ?case by simp
next
  case (2 t i s ns)
  then show ?case by simp
next
  case (3 t i g a cs ns)
  show ?case
  proof (cases "g = t")
    case True
    then show ?thesis using 3 by simp
  next
    case False
    show ?thesis
    proof (cases "find_first t 0 cs")
      case None
      then have "find_all t 0 cs = []" by (simp add: find_first_None_find_all)
      then show ?thesis using 3 False None by simp
    next
      case (Some q)
      with 3(1) [OF False] have "find_all t 0 cs \<noteq> [] \<and> fst (hd (find_all t 0 cs)) = q" by simp
      then show ?thesis using 3(3) False Some
        by (cases "find_all t 0 cs") (auto simp: hd_append)
    qed
  qed
qed

lemma find_all_shift_empty: "find_all t i ns = [] \<Longrightarrow> find_all t j ns = []"
  by (induction t i ns arbitrary: j rule: find_all.induct) (auto split: if_splits)

lemma find_all_append:
  "find_all t i (xs @ ys) = find_all t i xs @ find_all t (i + length xs) ys"
  by (induction t i xs rule: find_all.induct) simp_all

text \<open>
  C7, as stated, fails: \<^verbatim>\<open>querySelector\<close> searches all descendants, so for an \<^verbatim>\<open>html\<close>
  element with no \<^verbatim>\<open>head\<close> and no \<^verbatim>\<open>body\<close> among its children but a \<^verbatim>\<open>head\<close> nested in
  a \<^verbatim>\<open>div\<close>, no \<^verbatim>\<open>head\<close> is created: the nested one is returned, and only the \<^verbatim>\<open>body\<close> is
  appended.
\<close>

theorem head_not_created_for_nested_head:
  "generateBundle_head_body
     (HTMLElement ''html'' [] [HTMLElement ''div'' [] [HTMLElement ''head'' [] []]])
   = (HTMLElement ''html'' []
        [HTMLElement ''div'' [] [HTMLElement ''head'' [] []], HTMLElement ''body'' [] []],
      [0, 0], [1])"
  by (simp add: generateBundle_head_body_def getChildElement_def querySelector_def childNodes_def
      appendChild_def)

text \<open>
  C7, amended: when \<^verbatim>\<open>html\<close> has no \<^verbatim>\<open>head\<close> and no \<^verbatim>\<open>body\<close> element anywhere below it,
  one \<^verbatim>\<open>head\<close> is created as its first child and one \<^verbatim>\<open>body\<close> as its last child, and
  afterwards these are the only \<^verbatim>\<open>head\<close> and \<^verbatim>\<open>body\<close> elements below \<^verbatim>\<open>html\<close>. When an
  element of the requested tag exists below the node, \<^verbatim>\<open>getChildElement\<close> returns the first
  one in document order and leaves the node as it is.
\<close>

theorem head_and_body_created:
  "(querySelector (HTMLElement g a cs) ''head'' = None
      \<and> querySelector (HTMLElement g a cs) ''body'' = None \<longrightarrow>
      generateBundle_head_body (HTMLElement g a cs) =
        (HTMLElement g a (HTMLElement ''head'' [] [] # cs @ [HTMLElement ''body'' [] []]),
         [0], [Suc (length cs)])
      \<and> map fst (querySelectorAll
           (HTMLElement g a (HTMLElement ''head'' [] [] # cs @ [HTMLElement ''body'' [] []])) ''head'')
         = [[0]]
      \<and> map fst (querySelectorAll
           (HTMLElement g a (HTMLElement ''head'' [] [] # cs @ [HTMLElement ''body'' [] []])) ''body'')
         = [[Suc (length cs)]])
   \<and> (\<forall>p. querySelector n tag = Some p \<longrightarrow>
         getChildElement n tag append' = (n, p)
         \<and> querySelectorAll n tag \<noteq> [] \<and> fst (hd (querySelectorAll n tag)) = p)"
proof (intro conjI allI impI)
  assume h: "querySelector (HTMLElement g a cs) ''head'' = None
      \<and> querySelector (HTMLElement g a cs) ''body'' = None"
  then have fh: "find_first ''head'' 0 cs = None" and fb: "find_first ''body'' 0 cs = None"
    by (simp_all add: querySelector_def childNodes_def)
  have fb1: "find_first ''body'' (Suc 0) cs = None"
    using fb by (simp add: find_first_None_find_all find_all_shift_empty)
  show "generateBundle_head_body (HTMLElement g a cs) =
        (HTMLElement g a (HTMLElement ''head'' [] [] # cs @ [HTMLElement ''body'' [] []]),
         [0], [Suc (length cs)])"
    using fh fb1
    by (simp add: generateBundle_head_body_def getChildElement_def querySelector_def childNodes_def
        appendChild_def)
  have ah: "find_all ''head'' i cs = []" for i
    using fh by (simp add: find_first_None_find_all find_all_shift_empty)
  have ab: "find_all ''body'' i cs = []" for i
    using fb by (simp add: find_first_None_find_all find_all_shift_empty)
  show "map fst (querySelectorAll
           (HTMLElement g a (HTMLElement ''head'' [] [] # cs @ [HTMLElement ''body'' [] []])) ''head'')
         = [[0]]"
    by (simp add: querySelectorAll_def childNodes_def find_all_append ah)
  show "map fst (querySelectorAll
           (HTMLElement g a (HTMLElement ''head'' [] [] # cs @ [HTMLElement ''body'' [] []])) ''body'')
         = [[Suc (length cs)]]"
    by (simp add: querySelectorAll_def childNodes_def find_all_append ab)
next
  fix p assume q: "querySelector n tag = Some p"
  show "getChildElement n tag append' = (n, p)"
    using q by (simp add: getChildElement_def)
  show "querySelectorAll n tag \<noteq> []" "fst (hd (querySelectorAll n tag)) = p"
    using find_first_hd_find_all [of tag 0 "childNodes n" p] q
    by (simp_all add: querySelector_def querySelectorAll_def)
qed

theorem head_and_body_created_witness:
  "generateBundle_head_body (HTMLElement ''html'' [] [TextNode ''hi''])
     = (HTMLElement ''html'' []
          [HTMLElement ''head'' [] [], TextNode ''hi'', HTMLElement ''body'' [] []], [0], [2])
   \<and> getChildElement
       (HTMLElement ''html'' [] [HTMLElement ''head'' ''lang'' [], HTMLElement ''head'' [] []])
       ''head'' False
     = (HTMLElement ''html'' [] [HTMLElement ''head'' ''lang'' [], HTMLElement ''head'' [] []], [0])"
proof -
  have none: "querySelector (HTMLElement ''html'' [] [TextNode ''hi'']) ''head'' = None
      \<and> querySelector (HTMLElement ''html'' [] [TextNode ''hi'']) ''body'' = None"
    by (simp add: querySelector_def childNodes_def)
  have some: "querySelector
       (HTMLElement ''html'' [] [HTMLElement ''head'' ''lang'' [], HTMLElement ''head'' [] []])
       ''head'' = Some [0]"
    by (simp add: querySelector_def childNodes_def)
  note inst = head_and_body_created [where g = "''html''" and a = "[]" and cs = "[TextNode ''hi'']"
      and n = "HTMLElement ''html'' [] [HTMLElement ''head'' ''lang'' [], HTMLElement ''head'' [] []]"
      and tag = "''head''" and append' = False]
  have a: "generateBundle_head_body (HTMLElement ''html'' [] [TextNode ''hi''])
     = (HTMLElement ''html'' []
          [HTMLElement ''head'' [] [], TextNode ''hi'', HTMLElement ''body'' [] []], [0], [2])"
    using inst [THEN conjunct1, THEN mp, OF none, THEN conjunct1] by simp
  have b: "getChildElement
       (HTMLElement ''html'' [] [HTMLElement ''head'' ''lang'' [], HTMLElement ''head'' [] []])
       ''head'' False
     = (HTMLElement ''html'' [] [HTMLElement ''head'' ''lang'' [], HTMLElement ''head'' [] []], [0])"
    using inst [THEN conjunct2, THEN spec, THEN mp, OF some, THEN conjunct1] .
  from a b show ?thesis by (rule conjI)
qed

section \<open>Running a decorator twice\<close>





















lemma set_content_at_Cons_0_top:
  "set_content_at [0] new (HTMLElement g a ks # ns) = HTMLElement g a new # ns"
  by simp









end
